theory Spec2Isabelle
  imports Complex_Main "HOL-Library.Multiset"
begin

section \<open>Face matching (services/faceDetection)\<close>

text \<open>
  JavaScript numbers are modelled as mathematical reals: rounding, NaN and the infinities
  of IEEE arithmetic are outside the model. A \<open>Float32Array\<close> and a \<open>number[]\<close> are both
  a \<open>real list\<close>, so \<open>new Float32Array(descriptor)\<close> is the identity (it keeps the length).
  Exceptions are values of the type \<open>error\<close>; a function that can throw returns
  \<open>error + 'a\<close>, with \<open>Inl\<close> the exception.
\<close>

datatype error =
    DimensionMismatch
  | GeminiApiError nat
  | NetworkError
  | SyntaxError
  | TypeError
  | DatabaseError

text \<open>The element type of \<open>storedPeople\<close>: \<open>{ id: number; descriptor: number[] }\<close>.\<close>

record StoredPersonWithDescriptor =
  id_Stored :: int
  descriptor :: "real list"

text \<open>The result type of \<open>findBestMatch\<close>: \<open>{ personId: number; similarity: number }\<close>.\<close>

record Match =
  personId :: int
  similarity :: real

text \<open>
  Modelled from the spec: \<open>faceapi.euclideanDistance\<close> is a function of the face-api
  library, which is not part of the sources. The spec calls it the Euclidean distance
  between the two embeddings and asks for a \<open>DimensionMismatch\<close> failure when their
  lengths differ; the library function does both (it throws on arrays of different
  lengths, and otherwise maps the two arrays to their differences and reduces them to the
  sum of the squares, from 0, before taking the square root).
\<close>

definition euclideanDistance :: "real list \<Rightarrow> real list \<Rightarrow> error + real" where
  "euclideanDistance arr1 arr2 =
     (if length arr1 \<noteq> length arr2 then Inl DimensionMismatch
      else Inr (sqrt (foldl (\<lambda>res diff. res + diff\<^sup>2) 0
                        (map (\<lambda>(val1, val2). val1 - val2) (zip arr1 arr2)))))"

text \<open>\<open>compareFaces\<close>: the distance turned into a similarity, \<open>Math.max(0, 1 - distance)\<close>.
  It has no handler, so an exception of \<open>euclideanDistance\<close> passes through.\<close>

definition compareFaces :: "real list \<Rightarrow> real list \<Rightarrow> error + real" where
  "compareFaces descriptor1 descriptor2 =
     (case euclideanDistance descriptor1 descriptor2 of
        Inl e \<Rightarrow> Inl e
      | Inr distance \<Rightarrow> Inr (max 0 (1 - distance)))"

definition MATCH_THRESHOLD :: real where
  "MATCH_THRESHOLD = 0.4"

text \<open>The \<open>for (const person of storedPeople)\<close> loop of \<open>findBestMatch\<close>, with the
  running \<open>bestMatch\<close> as accumulator. The running best is replaced only under \<open>>\<close>.\<close>

fun findBestMatch_loop ::
  "real list \<Rightarrow> Match \<Rightarrow> StoredPersonWithDescriptor list \<Rightarrow> error + Match" where
  "findBestMatch_loop detectedDescriptor bestMatch [] = Inr bestMatch"
| "findBestMatch_loop detectedDescriptor bestMatch (person # rest) =
     (case compareFaces detectedDescriptor (descriptor person) of
        Inl e \<Rightarrow> Inl e
      | Inr sim \<Rightarrow>
          findBestMatch_loop detectedDescriptor
            (if sim > similarity bestMatch
             then \<lparr>personId = id_Stored person, similarity = sim\<rparr>
             else bestMatch)
            rest)"

text \<open>\<open>findBestMatch\<close>: \<open>null\<close> is \<open>None\<close>. The empty list returns before the loop; the
  sentinel \<open>{ personId: -1, similarity: 0 }\<close> starts the loop; the best is returned only
  when it reaches the threshold.\<close>

definition findBestMatch ::
  "real list \<Rightarrow> StoredPersonWithDescriptor list \<Rightarrow> error + Match option" where
  "findBestMatch detectedDescriptor storedPeople =
     (if length storedPeople = 0 then Inr None
      else (case findBestMatch_loop detectedDescriptor
                   \<lparr>personId = - 1, similarity = 0\<rparr> storedPeople of
              Inl e \<Rightarrow> Inl e
            | Inr bestMatch \<Rightarrow>
                if similarity bestMatch \<ge> MATCH_THRESHOLD then Inr (Some bestMatch)
                else Inr None))"


text \<open>The score \<open>compareFaces\<close> gives a stored person against a query, read out of the
  result (0 where the comparison throws): the quantity the loop maximises.\<close>

definition similarityOf :: "real list \<Rightarrow> StoredPersonWithDescriptor \<Rightarrow> real" where
  "similarityOf q p = (case compareFaces q (descriptor p) of Inl e \<Rightarrow> 0 | Inr s \<Rightarrow> s)"

text \<open>The spec's words for the distance: the Euclidean distance between two embeddings
  of one length, the square root of the sum of the squared coordinate differences.\<close>

definition euclidean_distance_spec :: "real list \<Rightarrow> real list \<Rightarrow> real" where
  "euclidean_distance_spec a b = sqrt (\<Sum>i<length a. (a ! i - b ! i)\<^sup>2)"

section \<open>The AR viewer (pages/ARViewer)\<close>

text \<open>
  \<open>Person\<close> and \<open>Conversation\<close> of db/database, with the fields the viewer reads; the
  photo and the dates play no part in recognition and are left out. An optional field is
  an \<open>option\<close>.
\<close>

record Person =
  id_Person :: "int option"
  name :: string
  relation :: string
  faceDescriptor :: "real list option"

record DetectedPerson = Person +
  lastConvo :: "string option"

record Conversation =
  summary :: string

record Point =
  pos_x :: real
  pos_y :: real

text \<open>\<open>FacePosition\<close> and \<open>FaceDetectionResult\<close> of services/faceDetection.\<close>

record FacePosition = Point +
  width :: real
  height :: real

record FaceDetectionResult =
  position :: FacePosition
  descriptor_Result :: "real list option"

text \<open>
  The component's state: its \<open>useState\<close> values and its refs. \<open>videoRef\<close> tells whether
  the video element is there and \<open>srcObject\<close> whether it has been given a stream.
  \<open>fetched\<close> is a ghost field: the arguments of the calls of \<open>getLatestConversation\<close> made
  so far, in order.
\<close>

record ARViewer =
  detectedPerson :: "DetectedPerson option"
  cameraActive :: bool
  isTracking :: bool
  recognitionStatus :: string
  targetPosRef :: Point
  smoothPosRef :: Point
  overlayPos :: Point
  lastMatchedIdRef :: "int option"
  recognitionLoopRef :: bool
  modelsReadyRef :: bool
  videoRef :: bool
  srcObject :: bool
  storedDescriptorsRef :: "StoredPersonWithDescriptor list"
  allPeopleRef :: "Person list"
  fetched :: "int list"

text \<open>A whole number in a template literal: its decimal digits.\<close>

fun digits :: "nat \<Rightarrow> string" where
  "digits n = (if n < 10 then [char_of (48 + n)]
               else digits (n div 10) @ [char_of (48 + n mod 10)])"

declare digits.simps [simp del]

definition showInt :: "int \<Rightarrow> string" where
  "showInt i = (if i < 0 then CHR ''-'' # digits (nat (- i)) else digits (nat i))"

text \<open>\<open>Math.round\<close>: the nearest integer, a half rounded up.\<close>

definition Math_round :: "real \<Rightarrow> int" where
  "Math_round v = \<lfloor>v + 1 / 2\<rfloor>"

definition initialState :: ARViewer where
  "initialState =
     \<lparr>detectedPerson = None, cameraActive = False, isTracking = False,
      recognitionStatus = ''Loading AI...'',
      targetPosRef = \<lparr>pos_x = 75, pos_y = 30\<rparr>,
      smoothPosRef = \<lparr>pos_x = 75, pos_y = 30\<rparr>,
      overlayPos = \<lparr>pos_x = 75, pos_y = 30\<rparr>,
      lastMatchedIdRef = None, recognitionLoopRef = False, modelsReadyRef = False,
      videoRef = True, srcObject = False, storedDescriptorsRef = [], allPeopleRef = [], fetched = []\<rparr>"

text \<open>The descriptor lookup of \<open>initializeAR\<close>: a person enters it when \<open>person.id\<close> and
  \<open>person.faceDescriptor\<close> are truthy (an id that is there and not 0; any array).\<close>

fun buildDescriptors :: "Person list \<Rightarrow> StoredPersonWithDescriptor list" where
  "buildDescriptors [] = []"
| "buildDescriptors (person # people) =
     (case (id_Person person, faceDescriptor person) of
        (Some i, Some d) \<Rightarrow>
          if i \<noteq> 0 then \<lparr>id_Stored = i, descriptor = d\<rparr> # buildDescriptors people
          else buildDescriptors people
      | _ \<Rightarrow> buildDescriptors people)"

text \<open>How \<open>startCamera\<close> ends: the stream plays; \<open>play\<close> is interrupted (AbortError);
  an error named NotAllowedError or NotFoundError; any other error. The flag of an error
  tells whether it came from \<open>play\<close>, after the stream was attached to the video, or from
  \<open>getUserMedia\<close>, before.\<close>

datatype camera = Playing | PlayAborted | AccessDenied bool | CameraFailed bool

definition startFaceRecognition :: "ARViewer \<Rightarrow> ARViewer" where
  "startFaceRecognition s = (if recognitionLoopRef s then s else s\<lparr>recognitionLoopRef := True\<rparr>)"

definition startCamera :: "camera \<Rightarrow> ARViewer \<Rightarrow> ARViewer" where
  "startCamera cam s =
     (case cam of
        Playing \<Rightarrow>
          if videoRef s
          then startFaceRecognition (s\<lparr>srcObject := True, cameraActive := True\<rparr>)
          else s
      | PlayAborted \<Rightarrow> if videoRef s then s\<lparr>srcObject := True\<rparr> else s
      | AccessDenied attached \<Rightarrow>
          s\<lparr>srcObject := (videoRef s \<and> attached),
            recognitionStatus := ''Camera access denied''\<rparr>
      | CameraFailed attached \<Rightarrow>
          s\<lparr>srcObject := (videoRef s \<and> attached),
            recognitionStatus := ''Camera error''\<rparr>)"

text \<open>\<open>initializeAR\<close> on a mounted component: \<open>people\<close> is what \<open>getAllPeople\<close> returned,
  \<open>loaded\<close> what \<open>loadFaceDetectionModels\<close> returned.\<close>

definition initializeAR :: "Person list \<Rightarrow> bool \<Rightarrow> camera \<Rightarrow> ARViewer" where
  "initializeAR people loaded cam =
     startCamera cam
       (initialState
          \<lparr>allPeopleRef := people,
           storedDescriptorsRef := buildDescriptors people,
           modelsReadyRef := loaded,
           recognitionStatus := (if loaded then ''Scanning...'' else ''AI failed to load'')\<rparr>)"

text \<open>
  One call of \<open>recognize\<close>, the body of the polling loop. \<open>db\<close> is \<open>getLatestConversation\<close>
  as a lookup and \<open>result\<close> is what \<open>detectFaceWithDescriptor\<close> resolved to in this cycle.
  The function has no handler: an exception of \<open>findBestMatch\<close> leaves it, with the state
  as it is at that point (\<open>Inl\<close>), and the next call is then never scheduled. Here the
  lookup answers and the cycle is taken whole, from the state before it to the state after
  it; \<open>recognize_until_await\<close> and \<open>recognize_after_await\<close> below take the cycle in its two
  parts, around \<open>await getLatestConversation\<close>, and cover a lookup that rejects. The
  delays of \<open>setTimeout\<close> are not part of the model.
\<close>

definition recognize ::
  "(int \<Rightarrow> Conversation option) \<Rightarrow> ARViewer \<Rightarrow> FaceDetectionResult option
     \<Rightarrow> (error \<times> ARViewer) + ARViewer" where
  "recognize db s result =
     (if \<not> recognitionLoopRef s then Inr s
      else if \<not> videoRef s \<or> \<not> modelsReadyRef s then Inr s
      else (case result of
        None \<Rightarrow> Inr (s\<lparr>isTracking := False, recognitionStatus := ''Scanning...''\<rparr>)
      | Some r \<Rightarrow>
          (let s1 = s\<lparr>targetPosRef :=
                         \<lparr>pos_x = min (pos_x (position r) + 8) 85,
                          pos_y = max (pos_y (position r) - 5) 10\<rparr>,
                       isTracking := True\<rparr>
           in case (descriptor_Result r, length (storedDescriptorsRef s1) > 0) of
                (Some d, True) \<Rightarrow>
                  (case findBestMatch d (storedDescriptorsRef s1) of
                     Inl e \<Rightarrow> Inl (e, s1)
                   | Inr (Some match) \<Rightarrow>
                       if Some (personId match) \<noteq> lastMatchedIdRef s1 then
                         (let s2 = s1\<lparr>lastMatchedIdRef := Some (personId match)\<rparr>
                          in case find (\<lambda>p. id_Person p = Some (personId match))
                                    (allPeopleRef s2) of
                               Some matchedPerson \<Rightarrow>
                                 (let convo = db (personId match)
                                  in Inr (s2\<lparr>fetched := fetched s2 @ [personId match],
                                          detectedPerson := Some
                                            \<lparr>id_Person = id_Person matchedPerson,
                                             name = name matchedPerson,
                                             relation = relation matchedPerson,
                                             faceDescriptor = faceDescriptor matchedPerson,
                                             lastConvo = Some
                                               (case convo of
                                                  None \<Rightarrow> ''No recent conversations recorded.''
                                                | Some c \<Rightarrow>
                                                    if summary c = []
                                                    then ''No recent conversations recorded.''
                                                    else summary c)\<rparr>,
                                          recognitionStatus :=
                                            ''Recognized ('' @
                                            showInt (Math_round (similarity match * 100)) @
                                            ''%)''\<rparr>))
                             | None \<Rightarrow> Inr s2)
                       else Inr s1
                   | Inr None \<Rightarrow>
                       (let s2 = s1\<lparr>recognitionStatus := ''Unknown face''\<rparr>
                        in if lastMatchedIdRef s2 \<noteq> None
                           then Inr (s2\<lparr>lastMatchedIdRef := None, detectedPerson := None\<rparr>)
                           else Inr s2))
              | _ \<Rightarrow>
                  if length (storedDescriptorsRef s1) = 0
                  then Inr (s1\<lparr>recognitionStatus := ''No faces registered''\<rparr>)
                  else Inr (s1\<lparr>recognitionStatus := ''Analyzing face...''\<rparr>))))"

text \<open>The polling loop over the answers of the detector in successive cycles: each call
  of \<open>recognize\<close> that returns schedules the next one, and an exception ends the loop.\<close>

fun recognize_loop ::
  "(int \<Rightarrow> Conversation option) \<Rightarrow> ARViewer \<Rightarrow> FaceDetectionResult option list
     \<Rightarrow> (error \<times> ARViewer) + ARViewer" where
  "recognize_loop db s [] = Inr s"
| "recognize_loop db s (result # results) =
     (case recognize db s result of
        Inl failure \<Rightarrow> Inl failure
      | Inr s' \<Rightarrow> recognize_loop db s' results)"

text \<open>One frame of the animation loop: each axis of the smoothed position moves 0.12 of
  the way to the target, and the overlay position is set to a copy of it.\<close>

definition animate :: "ARViewer \<Rightarrow> ARViewer" where
  "animate s =
     (let sx = pos_x (smoothPosRef s) + (pos_x (targetPosRef s) - pos_x (smoothPosRef s)) * 0.12;
          sy = pos_y (smoothPosRef s) + (pos_y (targetPosRef s) - pos_y (smoothPosRef s)) * 0.12
      in s\<lparr>smoothPosRef := \<lparr>pos_x = sx, pos_y = sy\<rparr>,
           overlayPos := \<lparr>pos_x = sx, pos_y = sy\<rparr>\<rparr>)"

text \<open>\<open>stopVideo\<close>: it acts when the video element has a stream.\<close>

definition stopVideo :: "ARViewer \<Rightarrow> ARViewer" where
  "stopVideo s =
     (if videoRef s \<and> srcObject s
      then s\<lparr>cameraActive := False, isTracking := False, recognitionLoopRef := False\<rparr>
      else s)"

text \<open>
  The cycle in two parts. \<open>recognize\<close> suspends at \<open>await getLatestConversation\<close> in the
  cycle of a newly matched identity: \<open>lastMatchedIdRef\<close> is already set and the lookup is
  under way when it does, and the displayed person and the status are set only when the
  lookup has answered. \<open>recognize_until_await\<close> is the cycle up to that point: it ends the
  cycle (\<open>Returned\<close>), throws, or suspends (\<open>Awaiting\<close>) with the state at the await, the
  matched person and the match.
\<close>

datatype cycle = Returned ARViewer | Awaiting ARViewer Person Match

definition recognize_until_await ::
  "ARViewer \<Rightarrow> FaceDetectionResult option \<Rightarrow> (error \<times> ARViewer) + cycle" where
  "recognize_until_await s result =
     (if \<not> recognitionLoopRef s then Inr (Returned s)
      else if \<not> videoRef s \<or> \<not> modelsReadyRef s then Inr (Returned s)
      else (case result of
        None \<Rightarrow>
          Inr (Returned (s\<lparr>isTracking := False, recognitionStatus := ''Scanning...''\<rparr>))
      | Some r \<Rightarrow>
          (let s1 = s\<lparr>targetPosRef :=
                         \<lparr>pos_x = min (pos_x (position r) + 8) 85,
                          pos_y = max (pos_y (position r) - 5) 10\<rparr>,
                       isTracking := True\<rparr>
           in case (descriptor_Result r, length (storedDescriptorsRef s1) > 0) of
                (Some d, True) \<Rightarrow>
                  (case findBestMatch d (storedDescriptorsRef s1) of
                     Inl e \<Rightarrow> Inl (e, s1)
                   | Inr (Some match) \<Rightarrow>
                       if Some (personId match) \<noteq> lastMatchedIdRef s1 then
                         (let s2 = s1\<lparr>lastMatchedIdRef := Some (personId match)\<rparr>
                          in case find (\<lambda>p. id_Person p = Some (personId match))
                                    (allPeopleRef s2) of
                               Some matchedPerson \<Rightarrow>
                                 Inr (Awaiting
                                        (s2\<lparr>fetched := fetched s2 @ [personId match]\<rparr>)
                                        matchedPerson match)
                             | None \<Rightarrow> Inr (Returned s2))
                       else Inr (Returned s1)
                   | Inr None \<Rightarrow>
                       (let s2 = s1\<lparr>recognitionStatus := ''Unknown face''\<rparr>
                        in if lastMatchedIdRef s2 \<noteq> None
                           then Inr (Returned
                                       (s2\<lparr>lastMatchedIdRef := None, detectedPerson := None\<rparr>))
                           else Inr (Returned s2)))
              | _ \<Rightarrow>
                  if length (storedDescriptorsRef s1) = 0
                  then Inr (Returned (s1\<lparr>recognitionStatus := ''No faces registered''\<rparr>))
                  else Inr (Returned (s1\<lparr>recognitionStatus := ''Analyzing face...''\<rparr>)))))"

text \<open>
  The rest of the cycle, from the state at the await. \<open>answer\<close> is how the lookup ends:
  it resolves to a conversation or to none (\<open>Inr\<close>), or it rejects (\<open>Inl\<close>). A rejection
  leaves \<open>recognize\<close>, which has no handler: the state stays as it is at the await and the
  next call is never scheduled.
\<close>

definition recognize_after_await ::
  "error + Conversation option \<Rightarrow> ARViewer \<Rightarrow> Person \<Rightarrow> Match
     \<Rightarrow> (error \<times> ARViewer) + ARViewer" where
  "recognize_after_await answer s2 matchedPerson match =
     (case answer of
        Inl e \<Rightarrow> Inl (e, s2)
      | Inr convo \<Rightarrow>
          Inr (s2\<lparr>detectedPerson := Some
                     \<lparr>id_Person = id_Person matchedPerson,
                      name = name matchedPerson,
                      relation = relation matchedPerson,
                      faceDescriptor = faceDescriptor matchedPerson,
                      lastConvo = Some
                        (case convo of
                           None \<Rightarrow> ''No recent conversations recorded.''
                         | Some c \<Rightarrow>
                             if summary c = []
                             then ''No recent conversations recorded.''
                             else summary c)\<rparr>,
                   recognitionStatus :=
                     ''Recognized ('' @
                     showInt (Math_round (similarity match * 100)) @
                     ''%)''\<rparr>))"

text \<open>
  Where the polling loop stands: between two cycles (\<open>Polling\<close>), suspended at the await of
  a cycle (\<open>Pending\<close>, with the matched person and the match of that cycle), or ended by an
  exception (\<open>Halted\<close>).
\<close>

datatype phase = Polling | Pending Person Match | Halted

text \<open>
  The states a session goes through, each with the phase of the polling loop. It starts
  with the state \<open>initializeAR\<close> leaves. A cycle starts only between cycles: it returns,
  throws, or suspends at the await; a suspended cycle goes on when the lookup answers and
  ends the loop when the lookup rejects. Animation frames and presses of the stop button
  come at any time, also while a cycle is suspended.
\<close>

inductive session :: "phase \<Rightarrow> ARViewer \<Rightarrow> bool" where
  init: "session Polling (initializeAR people loaded cam)"
| poll: "session Polling s \<Longrightarrow> recognize_until_await s result = Inr (Returned s')
     \<Longrightarrow> session Polling s'"
| poll_throws: "session Polling s \<Longrightarrow> recognize_until_await s result = Inl (e, s')
     \<Longrightarrow> session Halted s'"
| await: "session Polling s \<Longrightarrow> recognize_until_await s result = Inr (Awaiting s2 p m)
     \<Longrightarrow> session (Pending p m) s2"
| answered: "session (Pending p m) s2 \<Longrightarrow> recognize_after_await (Inr convo) s2 p m = Inr s'
     \<Longrightarrow> session Polling s'"
| rejected: "session (Pending p m) s2 \<Longrightarrow> recognize_after_await (Inl e) s2 p m = Inl (e', s')
     \<Longrightarrow> session Halted s'"
| frame: "session ph s \<Longrightarrow> session ph (animate s)"
| stop: "session ph s \<Longrightarrow> session ph (stopVideo s)"

text \<open>A state is reachable when the session is in it in some phase: between cycles, at
  the await of a cycle, or after the exception that ended the loop.\<close>

definition reachable :: "ARViewer \<Rightarrow> bool" where
  "reachable s = (\<exists>ph. session ph s)"


section \<open>The summarizer (services/gemini)\<close>

text \<open>
  Strings are lists of 8-bit characters: the model covers texts whose code units are below
  256. \<open>\s\<close> and \<open>trim\<close> see the white space of that range (tab, line feed, vertical tab,
  form feed, carriage return, space, no-break space); \<open>toLowerCase\<close> moves the capital
  letters of that range.
\<close>

definition isWhiteSpace :: "char \<Rightarrow> bool" where
  "isWhiteSpace c = ((of_char c :: nat) \<in> {9, 10, 11, 12, 13, 32, 160})"

definition toLowerCase_char :: "char \<Rightarrow> char" where
  "toLowerCase_char c =
     (let n = (of_char c :: nat)
      in if (65 \<le> n \<and> n \<le> 90) \<or> (192 \<le> n \<and> n \<le> 214) \<or> (216 \<le> n \<and> n \<le> 222)
         then char_of (n + 32) else c)"

definition toLowerCase :: "string \<Rightarrow> string" where
  "toLowerCase text = map toLowerCase_char text"

definition trim :: "string \<Rightarrow> string" where
  "trim text = rev (dropWhile isWhiteSpace (rev (dropWhile isWhiteSpace text)))"

text \<open>\<open>text.includes(topic)\<close>: the topic occurs in the text, at some position.\<close>

fun includes_String :: "string \<Rightarrow> string \<Rightarrow> bool" where
  "includes_String [] topic = (topic = [])"
| "includes_String (c # cs) topic =
     (take (length topic) (c # cs) = topic \<or> includes_String cs topic)"

text \<open>\<open>text.split(/\s+/)\<close>: the pieces between the maximal runs of white space, with
  \<open>word\<close> the piece being read. The empty string gives one empty piece, and white space
  at either end an empty piece there.\<close>

fun split_loop :: "string \<Rightarrow> string \<Rightarrow> string list" where
  "split_loop word [] = [word]"
| "split_loop word (c # cs) =
     (if isWhiteSpace c then
        (case cs of
           [] \<Rightarrow> [word, []]
         | d # ds \<Rightarrow> if isWhiteSpace d then split_loop word cs else word # split_loop [] cs)
      else split_loop (word @ [c]) cs)"

definition split :: "string \<Rightarrow> string list" where
  "split text = split_loop [] text"

fun join :: "string \<Rightarrow> string list \<Rightarrow> string" where
  "join sep [] = []"
| "join sep [w] = w"
| "join sep (w # ws) = w @ sep @ join sep ws"

definition topicWords :: "string list" where
  "topicWords = [''hackathon'', ''birthday'', ''wedding'', ''trip'', ''vacation'', ''work'',
     ''project'', ''school'', ''doctor'', ''hospital'', ''dinner'', ''lunch'', ''party'',
     ''game'', ''movie'']"

text \<open>\<open>createFallbackSummary\<close>: the first topic word the lower-cased text contains, or
  else the first eight words of the text; fewer than three words give a fixed sentence.\<close>

definition createFallbackSummary :: "string \<Rightarrow> string" where
  "createFallbackSummary text =
     (let lowerText = toLowerCase text
      in case find (\<lambda>topic. includes_String lowerText topic) topicWords of
           Some topic \<Rightarrow> ''Talked about '' @ topic
         | None \<Rightarrow>
             (let words = take 8 (split (trim text))
              in if length words < 3 then ''Had a conversation recently''
                 else join '' '' words @ ''...''))"

text \<open>A value read out of the response body: what \<open>JSON.parse\<close> can yield, and
  \<open>undefined\<close> for a property that is not there.\<close>

datatype jsval =
    JUndefined
  | JNull
  | JBool bool
  | JNum real
  | JStr string
  | JArr "jsval list"
  | JObj "(string \<times> jsval) list"

fun nullish :: "jsval \<Rightarrow> bool" where
  "nullish JUndefined = True"
| "nullish JNull = True"
| "nullish v = False"

text \<open>\<open>v.key\<close> for one of the keys read here (\<open>candidates\<close>, \<open>content\<close>, \<open>parts\<close>, \<open>text\<close>,
  \<open>response\<close>): an object has it or not; strings, numbers, booleans and arrays have no
  property of these names; reading a property of \<open>null\<close> or \<open>undefined\<close> throws.\<close>

fun getProp :: "string \<Rightarrow> jsval \<Rightarrow> error + jsval" where
  "getProp key JUndefined = Inl TypeError"
| "getProp key JNull = Inl TypeError"
| "getProp key (JObj props) =
     (case map_of props key of None \<Rightarrow> Inr JUndefined | Some v \<Rightarrow> Inr v)"
| "getProp key v = Inr JUndefined"

text \<open>\<open>v[0]\<close>: the first element of an array, the first character of a string, the
  property \<open>0\<close> of an object.\<close>

fun getIndex0 :: "jsval \<Rightarrow> error + jsval" where
  "getIndex0 JUndefined = Inl TypeError"
| "getIndex0 JNull = Inl TypeError"
| "getIndex0 (JArr vs) = (case vs of [] \<Rightarrow> Inr JUndefined | v # _ \<Rightarrow> Inr v)"
| "getIndex0 (JStr cs) = (case cs of [] \<Rightarrow> Inr JUndefined | c # _ \<Rightarrow> Inr (JStr [c]))"
| "getIndex0 (JObj props) =
     (case map_of props ''0'' of None \<Rightarrow> Inr JUndefined | Some v \<Rightarrow> Inr v)"
| "getIndex0 v = Inr JUndefined"

text \<open>\<open>v.trim()\<close>: only a string has the method; on any other value that is not \<open>null\<close>
  or \<open>undefined\<close> the call throws (\<open>trim\<close> is not a function).\<close>

fun callTrim :: "jsval \<Rightarrow> error + jsval" where
  "callTrim (JStr cs) = Inr (JStr (trim cs))"
| "callTrim v = Inl TypeError"

text \<open>The optional chain \<open>v?.step\<close>: \<open>undefined\<close> when \<open>v\<close> is \<open>null\<close> or \<open>undefined\<close>,
  and then for the rest of the chain too.\<close>

definition optChain :: "(jsval \<Rightarrow> error + jsval) \<Rightarrow> error + jsval \<Rightarrow> error + jsval" where
  "optChain step r =
     (case r of Inl e \<Rightarrow> Inl e | Inr v \<Rightarrow> if nullish v then Inr JUndefined else step v)"

fun truthy :: "jsval \<Rightarrow> bool" where
  "truthy JUndefined = False"
| "truthy JNull = False"
| "truthy (JBool b) = b"
| "truthy (JNum r) = (r \<noteq> 0)"
| "truthy (JStr cs) = (cs \<noteq> [])"
| "truthy v = True"

text \<open>\<open>a || b\<close>, with \<open>b\<close> evaluated only when \<open>a\<close> is falsy.\<close>

definition orElse :: "error + jsval \<Rightarrow> error + jsval \<Rightarrow> error + jsval" where
  "orElse a b = (case a of Inl e \<Rightarrow> Inl e | Inr v \<Rightarrow> if truthy v then Inr v else b)"

text \<open>The four places the summary is looked for in the response data.\<close>

definition extractSummary :: "jsval \<Rightarrow> error + jsval" where
  "extractSummary data =
     orElse
       (optChain callTrim (optChain (getProp ''text'') (optChain getIndex0
          (optChain (getProp ''parts'') (optChain (getProp ''content'')
             (optChain getIndex0 (getProp ''candidates'' data)))))))
       (orElse
          (optChain callTrim (optChain (getProp ''text'')
             (optChain getIndex0 (getProp ''candidates'' data))))
          (orElse
             (optChain callTrim (getProp ''text'' data))
             (optChain callTrim (getProp ''response'' data))))"

text \<open>\<open>summary.replace(/^["']|["']$/g, '')\<close>: a quote at the start is removed, then a
  quote at the end of what remains.\<close>

definition isQuote :: "char \<Rightarrow> bool" where
  "isQuote c = (c = CHR 0x22 \<or> c = CHR 0x27)"

definition stripQuotes :: "string \<Rightarrow> string" where
  "stripQuotes cs =
     (let cs1 = (case cs of [] \<Rightarrow> [] | c # rest \<Rightarrow> if isQuote c then rest else cs)
      in if cs1 \<noteq> [] \<and> isQuote (last cs1) then butlast cs1 else cs1)"

text \<open>The response of \<open>fetch\<close>: its status, its \<open>ok\<close> flag and what \<open>response.json()\<close>
  resolves to (or throws).\<close>

record Response =
  status :: nat
  ok :: bool
  json :: "error + jsval"

text \<open>The \<open>try\<close> block of \<open>summarizeConversation\<close>. \<open>fetch\<close> is the network: from the
  key and the text of the request to a response, or to the error it throws.\<close>

definition summarizeConversation_try ::
  "(string \<Rightarrow> string \<Rightarrow> error + Response) \<Rightarrow> string \<Rightarrow> string \<Rightarrow> error + string" where
  "summarizeConversation_try fetch key text =
     (case fetch key text of
        Inl e \<Rightarrow> Inl e
      | Inr response \<Rightarrow>
          if status response = 429 then Inr (createFallbackSummary text)
          else if \<not> ok response then Inl (GeminiApiError (status response))
          else (case json response of
                  Inl e \<Rightarrow> Inl e
                | Inr data \<Rightarrow>
                    (case extractSummary data of
                       Inl e \<Rightarrow> Inl e
                     | Inr found \<Rightarrow>
                         if \<not> truthy found then Inr (createFallbackSummary text)
                         else (case found of
                                 JStr cs \<Rightarrow> Inr (trim (stripQuotes cs))
                               | _ \<Rightarrow> Inl TypeError))))"

text \<open>\<open>summarizeConversation\<close>: without a key (none, or the empty string) the fallback;
  otherwise the \<open>try\<close> block, and the fallback again in its \<open>catch\<close>.\<close>

definition summarizeConversation ::
  "string option \<Rightarrow> (string \<Rightarrow> string \<Rightarrow> error + Response) \<Rightarrow> string \<Rightarrow> error + string" where
  "summarizeConversation GEMINI_API_KEY fetch text =
     (case GEMINI_API_KEY of
        None \<Rightarrow> Inr (createFallbackSummary text)
      | Some key \<Rightarrow>
          if key = [] then Inr (createFallbackSummary text)
          else (case summarizeConversation_try fetch key text of
                  Inl e \<Rightarrow> Inr (createFallbackSummary text)
                | Inr s \<Rightarrow> Inr s))"

section \<open>Sample inputs\<close>

text \<open>Concrete inputs for the checks that follow the theorems: one registered person
  with the embedding \<open>[0, 0]\<close>, the session \<open>initializeAR\<close> starts on that roster with the
  models loaded and the camera playing, the overlay the viewer shows for that person, a
  detection of a face with a given embedding, and a store without conversations.\<close>

definition sample_person :: Person where
  "sample_person =
     \<lparr>id_Person = Some 1, name = ''Ann'', relation = ''Daughter'',
      faceDescriptor = Some [0, 0]\<rparr>"

definition sample_overlay :: DetectedPerson where
  "sample_overlay =
     \<lparr>id_Person = Some 1, name = ''Ann'', relation = ''Daughter'',
      faceDescriptor = Some [0, 0],
      lastConvo = Some ''No recent conversations recorded.''\<rparr>"

definition sample_session :: ARViewer where
  "sample_session = initializeAR [sample_person] True Playing"

definition sample_face :: "real list \<Rightarrow> FaceDetectionResult" where
  "sample_face d =
     \<lparr>position = \<lparr>pos_x = 50, pos_y = 50, width = 10, height = 10\<rparr>,
      descriptor_Result = Some d\<rparr>"

definition no_conversations :: "int \<Rightarrow> Conversation option" where
  "no_conversations i = None"

section \<open>Properties of the matcher\<close>

lemma compareFaces_cases:
  "compareFaces a b = (if length a \<noteq> length b then Inl DimensionMismatch
     else Inr (max 0 (1 - sqrt (foldl (\<lambda>res diff. res + diff\<^sup>2) 0
                        (map (\<lambda>(val1, val2). val1 - val2) (zip a b))))))"
  by (simp add: compareFaces_def euclideanDistance_def)

lemma compareFaces_mismatch:
  "length a \<noteq> length b \<Longrightarrow> compareFaces a b = Inl DimensionMismatch"
  by (simp add: compareFaces_cases)

lemma compareFaces_similarityOf:
  "length (descriptor p) = length q \<Longrightarrow> compareFaces q (descriptor p) = Inr (similarityOf q p)"
  by (simp add: similarityOf_def compareFaces_cases)

lemma foldl_sq_nonneg: "0 \<le> acc \<Longrightarrow> 0 \<le> foldl (\<lambda>res diff. res + diff\<^sup>2) (acc::real) ds"
  by (induction ds arbitrary: acc) auto

lemma similarityOf_range: "0 \<le> similarityOf q p \<and> similarityOf q p \<le> 1"
  by (auto simp: similarityOf_def compareFaces_cases foldl_sq_nonneg)

lemma findBestMatch_loop_mismatch:
  "\<exists>p\<in>set ps. length (descriptor p) \<noteq> length q \<Longrightarrow>
   findBestMatch_loop q b ps = Inl DimensionMismatch"
proof (induction ps arbitrary: b)
  case Nil
  then show ?case by simp
next
  case (Cons p ps)
  show ?case
  proof (cases "length (descriptor p) = length q")
    case True
    with Cons.prems have "\<exists>p\<in>set ps. length (descriptor p) \<noteq> length q" by auto
    then show ?thesis using True by (simp add: compareFaces_similarityOf Cons.IH)
  next
    case False
    then show ?thesis by (simp add: compareFaces_mismatch)
  qed
qed

lemma findBestMatch_loop_split:
  "\<forall>p\<in>set ps. length (descriptor p) = length q \<Longrightarrow>
   (findBestMatch_loop q b ps = Inr b \<and> (\<forall>p\<in>set ps. similarityOf q p \<le> similarity b)) \<or>
   (\<exists>ys p zs. ps = ys @ p # zs \<and>
      findBestMatch_loop q b ps = Inr \<lparr>personId = id_Stored p, similarity = similarityOf q p\<rparr> \<and>
      similarity b < similarityOf q p \<and>
      (\<forall>y\<in>set ys. similarityOf q y < similarityOf q p) \<and>
      (\<forall>z\<in>set zs. similarityOf q z \<le> similarityOf q p))"
proof (induction ps arbitrary: b)
  case Nil
  then show ?case by simp
next
  case (Cons a ps)
  let ?b' = "if similarityOf q a > similarity b
             then \<lparr>personId = id_Stored a, similarity = similarityOf q a\<rparr> else b"
  have step: "findBestMatch_loop q b (a # ps) = findBestMatch_loop q ?b' ps"
    using Cons.prems by (simp add: compareFaces_similarityOf)
  from Cons.prems have all: "\<forall>p\<in>set ps. length (descriptor p) = length q" by simp
  from Cons.IH[OF all, of ?b'] show ?case
  proof (elim disjE conjE exE)
    assume same: "findBestMatch_loop q ?b' ps = Inr ?b'"
      and le: "\<forall>p\<in>set ps. similarityOf q p \<le> similarity ?b'"
    show ?thesis
    proof (cases "similarityOf q a > similarity b")
      case True
      have "a # ps = [] @ a # ps" by simp
      moreover have "findBestMatch_loop q b (a # ps) =
          Inr \<lparr>personId = id_Stored a, similarity = similarityOf q a\<rparr>"
        using step same True by simp
      moreover have "\<forall>z\<in>set ps. similarityOf q z \<le> similarityOf q a" using le True by simp
      ultimately show ?thesis using True by (intro disjI2 exI[of _ "[]"] exI[of _ a] exI[of _ ps]) simp
    next
      case False
      then show ?thesis using step same le by auto
    qed
  next
    fix ys p zs
    assume ps: "ps = ys @ p # zs"
      and res: "findBestMatch_loop q ?b' ps = Inr \<lparr>personId = id_Stored p, similarity = similarityOf q p\<rparr>"
      and lt: "similarity ?b' < similarityOf q p"
      and before: "\<forall>y\<in>set ys. similarityOf q y < similarityOf q p"
      and after: "\<forall>z\<in>set zs. similarityOf q z \<le> similarityOf q p"
    have "a # ps = (a # ys) @ p # zs" using ps by simp
    moreover have "findBestMatch_loop q b (a # ps) =
        Inr \<lparr>personId = id_Stored p, similarity = similarityOf q p\<rparr>" using step res by simp
    moreover have "similarity b < similarityOf q p" using lt by (simp split: if_splits)
    moreover have "\<forall>y\<in>set (a # ys). similarityOf q y < similarityOf q p"
      using lt before by (auto split: if_splits)
    ultimately show ?thesis using after
      by (intro disjI2 exI[of _ "a # ys"] exI[of _ p] exI[of _ zs]) simp
  qed
qed


lemma findBestMatch_mismatch:
  assumes "p \<in> set ps" and "length (descriptor p) \<noteq> length q"
  shows "findBestMatch q ps = Inl DimensionMismatch"
proof -
  have "ps \<noteq> []" using assms(1) by auto
  moreover have "findBestMatch_loop q \<lparr>personId = - 1, similarity = 0\<rparr> ps = Inl DimensionMismatch"
    using assms by (intro findBestMatch_loop_mismatch) blast
  ultimately show ?thesis by (simp add: findBestMatch_def)
qed

lemma findBestMatch_none:
  assumes len: "\<forall>p\<in>set ps. length (descriptor p) = length q"
    and low: "\<forall>p\<in>set ps. similarityOf q p < 0.4"
  shows "findBestMatch q ps = Inr None"
proof (cases "ps = []")
  case True
  then show ?thesis by (simp add: findBestMatch_def)
next
  case False
  from findBestMatch_loop_split[OF len, of "\<lparr>personId = - 1, similarity = 0\<rparr>"]
  show ?thesis
  proof (elim disjE conjE exE)
    assume "findBestMatch_loop q \<lparr>personId = - 1, similarity = 0\<rparr> ps =
            Inr \<lparr>personId = - 1, similarity = 0\<rparr>"
    then show ?thesis using False by (simp add: findBestMatch_def MATCH_THRESHOLD_def)
  next
    fix ys p zs
    assume ps: "ps = ys @ p # zs"
      and res: "findBestMatch_loop q \<lparr>personId = - 1, similarity = 0\<rparr> ps =
                Inr \<lparr>personId = id_Stored p, similarity = similarityOf q p\<rparr>"
    have "similarityOf q p < 0.4" using low ps by simp
    then show ?thesis using False res by (simp add: findBestMatch_def MATCH_THRESHOLD_def)
  qed
qed

lemma findBestMatch_first_best:
  assumes len: "\<forall>p\<in>set (ys @ p # zs). length (descriptor p) = length q"
    and thr: "0.4 \<le> similarityOf q p"
    and before: "\<forall>y\<in>set ys. similarityOf q y < similarityOf q p"
    and after: "\<forall>z\<in>set zs. similarityOf q z \<le> similarityOf q p"
  shows "findBestMatch q (ys @ p # zs) =
         Inr (Some \<lparr>personId = id_Stored p, similarity = similarityOf q p\<rparr>)"
proof -
  let ?ps = "ys @ p # zs"
  let ?b = "\<lparr>personId = - 1, similarity = 0\<rparr> :: Match"
  have pos: "similarity ?b < similarityOf q p" using thr by simp
  from findBestMatch_loop_split[OF len, of ?b]
  have "findBestMatch_loop q ?b ?ps = Inr \<lparr>personId = id_Stored p, similarity = similarityOf q p\<rparr>"
  proof (elim disjE conjE exE)
    assume "\<forall>p\<in>set ?ps. similarityOf q p \<le> similarity ?b"
    then have "similarityOf q p \<le> similarity ?b" by simp
    with pos show ?thesis by simp
  next
    fix ys' p' zs'
    assume eq: "?ps = ys' @ p' # zs'"
      and res: "findBestMatch_loop q ?b ?ps =
                Inr \<lparr>personId = id_Stored p', similarity = similarityOf q p'\<rparr>"
      and before': "\<forall>y\<in>set ys'. similarityOf q y < similarityOf q p'"
      and after': "\<forall>z\<in>set zs'. similarityOf q z \<le> similarityOf q p'"
    have "ys = ys'"
    proof (rule ccontr)
      assume ne: "ys \<noteq> ys'"
      from eq consider us where "us \<noteq> []" "ys @ us = ys'" "p # zs = us @ p' # zs'"
        | us where "us \<noteq> []" "ys = ys' @ us" "us @ p # zs = p' # zs'"
        using ne by (auto simp: append_eq_append_conv2)
      then show False
      proof cases
        case 1
        then have "p \<in> set ys'" by (cases us) auto
        then have "similarityOf q p < similarityOf q p'" using before' by simp
        moreover have "p' \<in> set zs" using 1 by (cases us) auto
        then have "similarityOf q p' \<le> similarityOf q p" using after by simp
        ultimately show False by simp
      next
        case 2
        then have "p' \<in> set ys" by (cases us) auto
        then have "similarityOf q p' < similarityOf q p" using before by simp
        moreover have "p \<in> set zs'" using 2 by (cases us) auto
        then have "similarityOf q p \<le> similarityOf q p'" using after' by simp
        ultimately show False by simp
      qed
    qed
    with eq have "p = p'" by simp
    with res show ?thesis by simp
  qed
  then show ?thesis using thr by (simp add: findBestMatch_def MATCH_THRESHOLD_def)
qed

lemma findBestMatch_Some_split:
  assumes "findBestMatch q ps = Inr (Some m)"
  shows "(\<forall>p\<in>set ps. length (descriptor p) = length q) \<and>
         (\<exists>ys p zs. ps = ys @ p # zs \<and>
            m = \<lparr>personId = id_Stored p, similarity = similarityOf q p\<rparr> \<and>
            0.4 \<le> similarityOf q p \<and>
            (\<forall>y\<in>set ys. similarityOf q y < similarityOf q p) \<and>
            (\<forall>z\<in>set zs. similarityOf q z \<le> similarityOf q p))"
proof -
  let ?b = "\<lparr>personId = - 1, similarity = 0\<rparr> :: Match"
  have len: "\<forall>p\<in>set ps. length (descriptor p) = length q"
  proof (rule ccontr)
    assume "\<not> ?thesis"
    then obtain p where "p \<in> set ps" "length (descriptor p) \<noteq> length q" by blast
    then have "findBestMatch q ps = Inl DimensionMismatch" by (rule findBestMatch_mismatch)
    with assms show False by simp
  qed
  have ne: "ps \<noteq> []" using assms by (auto simp: findBestMatch_def)
  from findBestMatch_loop_split[OF len, of ?b]
  have "\<exists>ys p zs. ps = ys @ p # zs \<and>
            m = \<lparr>personId = id_Stored p, similarity = similarityOf q p\<rparr> \<and>
            0.4 \<le> similarityOf q p \<and>
            (\<forall>y\<in>set ys. similarityOf q y < similarityOf q p) \<and>
            (\<forall>z\<in>set zs. similarityOf q z \<le> similarityOf q p)"
  proof (elim disjE conjE exE)
    assume "findBestMatch_loop q ?b ps = Inr ?b"
    then have "findBestMatch q ps = Inr None"
      using ne by (simp add: findBestMatch_def MATCH_THRESHOLD_def)
    with assms show ?thesis by simp
  next
    fix ys p zs
    assume ps: "ps = ys @ p # zs"
      and res: "findBestMatch_loop q ?b ps =
                Inr \<lparr>personId = id_Stored p, similarity = similarityOf q p\<rparr>"
      and before: "\<forall>y\<in>set ys. similarityOf q y < similarityOf q p"
      and after: "\<forall>z\<in>set zs. similarityOf q z \<le> similarityOf q p"
    from res assms ne have "m = \<lparr>personId = id_Stored p, similarity = similarityOf q p\<rparr> \<and>
        0.4 \<le> similarityOf q p"
      by (auto simp: findBestMatch_def MATCH_THRESHOLD_def split: if_splits)
    with ps before after show ?thesis by blast
  qed
  with len show ?thesis by simp
qed

lemma foldl_squares_sum_list:
  "foldl (\<lambda>res diff. res + diff\<^sup>2) acc ds = (acc::real) + sum_list (map (\<lambda>d. d\<^sup>2) ds)"
  by (induction ds arbitrary: acc) simp_all

lemma euclideanDistance_spec:
  assumes "length a = length b"
  shows "euclideanDistance a b = Inr (euclidean_distance_spec a b)"
proof -
  have "sum_list (map (\<lambda>d. d\<^sup>2) (map (\<lambda>(v, w). v - w) (zip a b))) =
        (\<Sum>i<length a. (a ! i - b ! i)\<^sup>2)"
    using assms by (simp add: sum_list_sum_nth atLeast0LessThan)
  then show ?thesis
    using assms by (simp add: euclideanDistance_def euclidean_distance_spec_def foldl_squares_sum_list)
qed

lemma similarityOf_self: "similarityOf e \<lparr>id_Stored = i, descriptor = e\<rparr> = 1"
  by (simp add: similarityOf_def compareFaces_def euclideanDistance_spec euclidean_distance_spec_def)

lemma findBestMatch_by_Max:
  assumes a: "ps \<noteq> [] \<and> (\<forall>p\<in>set ps. length (descriptor p) = length q)"
  shows "if Max (similarityOf q ` set ps) < 0.4 then findBestMatch q ps = Inr None
         else \<exists>p\<in>set ps. similarityOf q p = Max (similarityOf q ` set ps) \<and>
                findBestMatch q ps =
                  Inr (Some \<lparr>personId = id_Stored p, similarity = similarityOf q p\<rparr>)"
proof -
  let ?M = "Max (similarityOf q ` set ps)"
  show ?thesis
  proof (cases "?M < 0.4")
    case True
    have "\<forall>p\<in>set ps. similarityOf q p < 0.4"
    proof
      fix p assume "p \<in> set ps"
      then have "similarityOf q p \<le> ?M" by (intro Max_ge) auto
      with True show "similarityOf q p < 0.4" by simp
    qed
    with a have "findBestMatch q ps = Inr None" by (intro findBestMatch_none) simp_all
    with True show ?thesis by simp
  next
    case False
    have "?M \<in> similarityOf q ` set ps" using a by (intro Max_in) auto
    then obtain p0 where p0: "p0 \<in> set ps" "similarityOf q p0 = ?M" by auto
    have "\<exists>x\<in>set ps. similarityOf q x = ?M" using p0 by blast
    from split_list_first_prop[OF this]
    obtain ys p zs where ps: "ps = ys @ p # zs" and pM: "similarityOf q p = ?M"
      and first: "\<forall>y\<in>set ys. similarityOf q y \<noteq> ?M" by blast
    have pin: "p \<in> set ps" using ps by simp
    have le: "\<And>x. x \<in> set ps \<Longrightarrow> similarityOf q x \<le> ?M" by (intro Max_ge) auto
    have before: "\<forall>y\<in>set ys. similarityOf q y < similarityOf q p"
    proof
      fix y assume y: "y \<in> set ys"
      then have "y \<in> set ps" using ps by simp
      then have "similarityOf q y \<le> ?M" by (rule le)
      moreover have "similarityOf q y \<noteq> ?M" using first y by blast
      ultimately show "similarityOf q y < similarityOf q p" unfolding pM by simp
    qed
    have after: "\<forall>z\<in>set zs. similarityOf q z \<le> similarityOf q p"
    proof
      fix z assume "z \<in> set zs"
      then have "z \<in> set ps" using ps by simp
      then show "similarityOf q z \<le> similarityOf q p" unfolding pM by (rule le)
    qed
    have len: "\<forall>x\<in>set (ys @ p # zs). length (descriptor x) = length q"
      using a ps by blast
    have thr: "0.4 \<le> similarityOf q p" using False pM by simp
    have "findBestMatch q (ys @ p # zs) =
          Inr (Some \<lparr>personId = id_Stored p, similarity = similarityOf q p\<rparr>)"
      using len thr before after by (rule findBestMatch_first_best)
    then have "findBestMatch q ps =
          Inr (Some \<lparr>personId = id_Stored p, similarity = similarityOf q p\<rparr>)"
      using ps by simp
    with pin pM have "\<exists>p\<in>set ps. similarityOf q p = ?M \<and>
               findBestMatch q ps =
                 Inr (Some \<lparr>personId = id_Stored p, similarity = similarityOf q p\<rparr>)"
      by blast
    then show ?thesis using False by simp
  qed
qed

text \<open>
  Claim C1. \<open>findBestMatch\<close> returns none on the empty candidate list, before any score is
  computed. On candidates of the query's length it returns none whenever the highest
  similarity over all of them is below 0.4, also when there is one candidate only, and
  otherwise a candidate of the highest similarity, with that similarity.
\<close>

theorem findBestMatch_threshold:
  "findBestMatch q [] = Inr None \<and>
   (length (descriptor c) = length q \<and> similarityOf q c < 0.4 \<longrightarrow>
      findBestMatch q [c] = Inr None) \<and>
   (ps \<noteq> [] \<and> (\<forall>p\<in>set ps. length (descriptor p) = length q) \<longrightarrow>
      (if Max (similarityOf q ` set ps) < 0.4 then findBestMatch q ps = Inr None
       else \<exists>p\<in>set ps. similarityOf q p = Max (similarityOf q ` set ps) \<and>
              findBestMatch q ps =
                Inr (Some \<lparr>personId = id_Stored p, similarity = similarityOf q p\<rparr>)))"
proof (intro conjI impI)
  show "findBestMatch q [] = Inr None" by (simp add: findBestMatch_def)
next
  assume "length (descriptor c) = length q \<and> similarityOf q c < 0.4"
  then show "findBestMatch q [c] = Inr None" by (intro findBestMatch_none) simp_all
next
  assume "ps \<noteq> [] \<and> (\<forall>p\<in>set ps. length (descriptor p) = length q)"
  then show "if Max (similarityOf q ` set ps) < 0.4 then findBestMatch q ps = Inr None
        else \<exists>p\<in>set ps. similarityOf q p = Max (similarityOf q ` set ps) \<and>
               findBestMatch q ps =
                 Inr (Some \<lparr>personId = id_Stored p, similarity = similarityOf q p\<rparr>)"
    by (rule findBestMatch_by_Max)
qed

theorem findBestMatch_threshold_witness:
  "length (descriptor \<lparr>id_Stored = 1, descriptor = [0, 1]\<rparr>) = length [0, 0 :: real] \<and>
   similarityOf [0, 0] \<lparr>id_Stored = 1, descriptor = [0, 1]\<rparr> < 0.4 \<and>
   findBestMatch [0, 0] [\<lparr>id_Stored = 1, descriptor = [0, 1]\<rparr>] = Inr None \<and>
   [\<lparr>id_Stored = 1, descriptor = [0, 1]\<rparr>, \<lparr>id_Stored = 2, descriptor = [0, 0]\<rparr>] \<noteq> [] \<and>
   findBestMatch [0, 0]
     [\<lparr>id_Stored = 1, descriptor = [0, 1]\<rparr>, \<lparr>id_Stored = 2, descriptor = [0, 0]\<rparr>] =
     Inr (Some \<lparr>personId = 2, similarity = 1\<rparr>)"
  using findBestMatch_threshold [of "[0, 0]" "\<lparr>id_Stored = 1, descriptor = [0, 1]\<rparr>"
      "[\<lparr>id_Stored = 1, descriptor = [0, 1]\<rparr>, \<lparr>id_Stored = 2, descriptor = [0, 0]\<rparr>]"]
  by (simp add: similarityOf_def compareFaces_def euclideanDistance_def findBestMatch_def
      MATCH_THRESHOLD_def)

text \<open>
  Claim C2. The similarity of two embeddings of one length is \<open>max(0, 1 - d)\<close>, with \<open>d\<close>
  their Euclidean distance; and matching an embedding against itself as the single
  candidate returns that candidate with similarity exactly 1.
\<close>

theorem compareFaces_self_match:
  "(length a = length b \<longrightarrow> compareFaces a b = Inr (max 0 (1 - euclidean_distance_spec a b))) \<and>
   findBestMatch e [\<lparr>id_Stored = i, descriptor = e\<rparr>] = Inr (Some \<lparr>personId = i, similarity = 1\<rparr>)"
proof
  show "length a = length b \<longrightarrow> compareFaces a b = Inr (max 0 (1 - euclidean_distance_spec a b))"
    by (simp add: compareFaces_def euclideanDistance_spec)
next
  let ?p = "\<lparr>id_Stored = i, descriptor = e\<rparr>"
  have "findBestMatch e ([] @ ?p # []) =
        Inr (Some \<lparr>personId = id_Stored ?p, similarity = similarityOf e ?p\<rparr>)"
    by (rule findBestMatch_first_best) (simp_all add: similarityOf_self)
  then show "findBestMatch e [?p] = Inr (Some \<lparr>personId = i, similarity = 1\<rparr>)"
    by (simp add: similarityOf_self)
qed

theorem compareFaces_self_match_witness:
  "length [0, 0 :: real] = length [0, 1 :: real] \<and>
   compareFaces [0, 0] [0, 1] = Inr 0 \<and>
   findBestMatch [1 / 2, 1 / 4] [\<lparr>id_Stored = 7, descriptor = [1 / 2, 1 / 4]\<rparr>] =
     Inr (Some \<lparr>personId = 7, similarity = 1\<rparr>)"
  using compareFaces_self_match [of "[0, 0]" "[0, 1]" "[1 / 2, 1 / 4]" 7]
  by (simp add: euclidean_distance_spec_def lessThan_Suc numeral_2_eq_2)

text \<open>
  Claim C6. The similarity of the result of \<open>findBestMatch\<close> (or its failure) is the same
  for every ordering of the candidates; and the identity returned is that of the first
  candidate of the highest similarity: every candidate before it scores strictly less,
  and none after it scores more.
\<close>

theorem findBestMatch_order:
  "(mset ps = mset ps' \<longrightarrow>
      map_sum (\<lambda>e. e) (map_option similarity) (findBestMatch q ps) =
      map_sum (\<lambda>e. e) (map_option similarity) (findBestMatch q ps')) \<and>
   (findBestMatch q ps = Inr (Some m) \<longrightarrow>
      (\<exists>ys p zs. ps = ys @ p # zs \<and> personId m = id_Stored p \<and>
         similarityOf q p = similarity m \<and>
         (\<forall>y\<in>set ys. similarityOf q y < similarity m) \<and>
         (\<forall>z\<in>set zs. similarityOf q z \<le> similarity m)))"
proof (intro conjI impI)
  assume perm: "mset ps = mset ps'"
  then have sets: "set ps = set ps'" by (rule mset_eq_setD)
  have empty: "ps = [] \<longleftrightarrow> ps' = []" using sets by auto
  show "map_sum (\<lambda>e. e) (map_option similarity) (findBestMatch q ps) =
        map_sum (\<lambda>e. e) (map_option similarity) (findBestMatch q ps')"
  proof (cases "\<forall>p\<in>set ps. length (descriptor p) = length q")
    case False
    then obtain p where p: "p \<in> set ps" "length (descriptor p) \<noteq> length q" by blast
    then have "findBestMatch q ps = Inl DimensionMismatch" by (rule findBestMatch_mismatch)
    moreover have "findBestMatch q ps' = Inl DimensionMismatch"
      using p sets by (intro findBestMatch_mismatch[of p]) auto
    ultimately show ?thesis by simp
  next
    case len: True
    then have len': "\<forall>p\<in>set ps'. length (descriptor p) = length q" using sets by simp
    show ?thesis
    proof (cases "ps = []")
      case True
      then show ?thesis using empty by simp
    next
      case False
      then have ne': "ps' \<noteq> []" using empty by simp
      let ?M = "Max (similarityOf q ` set ps)"
      have M': "Max (similarityOf q ` set ps') = ?M" using sets by simp
      have r: "map_option similarity (projr (findBestMatch q xs)) =
               (if Max (similarityOf q ` set xs) < 0.4 then None
                else Some (Max (similarityOf q ` set xs))) \<and> isl (findBestMatch q xs) = False"
        if "xs \<noteq> []" "\<forall>p\<in>set xs. length (descriptor p) = length q" for xs
        using findBestMatch_by_Max[of xs q] that by (auto split: if_splits)
      show ?thesis
        using r[OF False len] r[OF ne' len'] M'
        by (cases "findBestMatch q ps"; cases "findBestMatch q ps'") simp_all
    qed
  qed
next
  assume "findBestMatch q ps = Inr (Some m)"
  from findBestMatch_Some_split[OF this]
  obtain ys p zs where "ps = ys @ p # zs"
    "m = \<lparr>personId = id_Stored p, similarity = similarityOf q p\<rparr>"
    "\<forall>y\<in>set ys. similarityOf q y < similarityOf q p"
    "\<forall>z\<in>set zs. similarityOf q z \<le> similarityOf q p" by blast
  then show "\<exists>ys p zs. ps = ys @ p # zs \<and> personId m = id_Stored p \<and>
         similarityOf q p = similarity m \<and>
         (\<forall>y\<in>set ys. similarityOf q y < similarity m) \<and>
         (\<forall>z\<in>set zs. similarityOf q z \<le> similarity m)"
    by (intro exI[of _ ys] exI[of _ p] exI[of _ zs]) simp
qed

theorem findBestMatch_order_witness:
  "mset [\<lparr>id_Stored = 1, descriptor = [0, 0]\<rparr>, \<lparr>id_Stored = 2, descriptor = [0, 0]\<rparr>] =
   mset [\<lparr>id_Stored = 2, descriptor = [0, 0]\<rparr>, \<lparr>id_Stored = 1, descriptor = [0, 0]\<rparr>] \<and>
   findBestMatch [0, 0]
     [\<lparr>id_Stored = 1, descriptor = [0, 0]\<rparr>, \<lparr>id_Stored = 2, descriptor = [0, 0]\<rparr>] =
     Inr (Some \<lparr>personId = 1, similarity = 1\<rparr>) \<and>
   findBestMatch [0, 0]
     [\<lparr>id_Stored = 2, descriptor = [0, 0]\<rparr>, \<lparr>id_Stored = 1, descriptor = [0, 0]\<rparr>] =
     Inr (Some \<lparr>personId = 2, similarity = 1\<rparr>)"
  using findBestMatch_order [of
      "[\<lparr>id_Stored = 1, descriptor = [0, 0]\<rparr>, \<lparr>id_Stored = 2, descriptor = [0, 0]\<rparr>]"
      "[\<lparr>id_Stored = 2, descriptor = [0, 0]\<rparr>, \<lparr>id_Stored = 1, descriptor = [0, 0]\<rparr>]"
      "[0, 0]" "\<lparr>personId = 1, similarity = 1\<rparr>"]
  by (simp add: compareFaces_def euclideanDistance_def findBestMatch_def MATCH_THRESHOLD_def)

text \<open>
  Claim C7. A candidate whose embedding has another length than the query yields no
  similarity: \<open>compareFaces\<close> fails with \<open>DimensionMismatch\<close>, so does \<open>findBestMatch\<close> on
  any list holding such a candidate, and the poll cycle fails with it, having set the
  target position and the tracking flag only.
\<close>

theorem dimension_mismatch_stops_match:
  "(length a \<noteq> length b \<longrightarrow> compareFaces a b = Inl DimensionMismatch) \<and>
   (p \<in> set ps \<and> length (descriptor p) \<noteq> length q \<longrightarrow>
      findBestMatch q ps = Inl DimensionMismatch) \<and>
   (recognitionLoopRef s \<and> videoRef s \<and> modelsReadyRef s \<and>
    descriptor_Result r = Some d \<and>
    c \<in> set (storedDescriptorsRef s) \<and> length (descriptor c) \<noteq> length d \<longrightarrow>
      recognize db s (Some r) =
        Inl (DimensionMismatch,
             s\<lparr>targetPosRef := \<lparr>pos_x = min (pos_x (position r) + 8) 85,
                                 pos_y = max (pos_y (position r) - 5) 10\<rparr>,
               isTracking := True\<rparr>))"
proof (intro conjI impI)
  assume "length a \<noteq> length b"
  then show "compareFaces a b = Inl DimensionMismatch" by (rule compareFaces_mismatch)
next
  assume "p \<in> set ps \<and> length (descriptor p) \<noteq> length q"
  then show "findBestMatch q ps = Inl DimensionMismatch"
    by (intro findBestMatch_mismatch[of p]) simp_all
next
  assume a: "recognitionLoopRef s \<and> videoRef s \<and> modelsReadyRef s \<and>
    descriptor_Result r = Some d \<and>
    c \<in> set (storedDescriptorsRef s) \<and> length (descriptor c) \<noteq> length d"
  then have m: "findBestMatch d (storedDescriptorsRef s) = Inl DimensionMismatch"
    by (intro findBestMatch_mismatch[of c]) simp_all
  have ne: "storedDescriptorsRef s \<noteq> []" using a by auto
  show "recognize db s (Some r) =
        Inl (DimensionMismatch,
             s\<lparr>targetPosRef := \<lparr>pos_x = min (pos_x (position r) + 8) 85,
                                 pos_y = max (pos_y (position r) - 5) 10\<rparr>,
               isTracking := True\<rparr>)"
    using a m ne by (simp add: recognize_def)
qed

theorem dimension_mismatch_stops_match_witness:
  "length [0, 0 :: real] \<noteq> length [0 :: real] \<and>
   compareFaces [0, 0] [0] = Inl DimensionMismatch \<and>
   \<lparr>id_Stored = 1, descriptor = [0]\<rparr> \<in>
     set [\<lparr>id_Stored = 2, descriptor = [0, 0]\<rparr>, \<lparr>id_Stored = 1, descriptor = [0]\<rparr>] \<and>
   findBestMatch [0, 0]
     [\<lparr>id_Stored = 2, descriptor = [0, 0]\<rparr>, \<lparr>id_Stored = 1, descriptor = [0]\<rparr>] =
     Inl DimensionMismatch \<and>
   isl (recognize (\<lambda>i. None)
     (initialState\<lparr>recognitionLoopRef := True, modelsReadyRef := True,
        storedDescriptorsRef := [\<lparr>id_Stored = 1, descriptor = [0]\<rparr>]\<rparr>)
     (Some \<lparr>position = \<lparr>pos_x = 50, pos_y = 50, width = 10, height = 10\<rparr>,
            descriptor_Result = Some [0, 0]\<rparr>))"
  using dimension_mismatch_stops_match [of "[0, 0]" "[0]" "\<lparr>id_Stored = 1, descriptor = [0]\<rparr>"
      "[\<lparr>id_Stored = 2, descriptor = [0, 0]\<rparr>, \<lparr>id_Stored = 1, descriptor = [0]\<rparr>]" "[0, 0]"
      "initialState\<lparr>recognitionLoopRef := True, modelsReadyRef := True,
        storedDescriptorsRef := [\<lparr>id_Stored = 1, descriptor = [0]\<rparr>]\<rparr>"
      "\<lparr>position = \<lparr>pos_x = 50, pos_y = 50, width = 10, height = 10\<rparr>,
            descriptor_Result = Some [0, 0]\<rparr>" "[0, 0]" "\<lparr>id_Stored = 1, descriptor = [0]\<rparr>"
      "\<lambda>i. None"]
  by (simp add: initialState_def)

text \<open>
  Claim C10. A match that \<open>findBestMatch\<close> returns has a similarity between 0.4 and 1 and
  the id of a candidate of the list, whose score it carries; it is never the sentinel
  \<open>{ personId: -1, similarity: 0 }\<close>.
\<close>

theorem findBestMatch_result_sound:
  "findBestMatch q ps = Inr (Some m) \<Longrightarrow>
     0.4 \<le> similarity m \<and> similarity m \<le> 1 \<and>
     (\<exists>p\<in>set ps. personId m = id_Stored p \<and>
        compareFaces q (descriptor p) = Inr (similarity m)) \<and>
     m \<noteq> \<lparr>personId = - 1, similarity = 0\<rparr>"
proof -
  assume "findBestMatch q ps = Inr (Some m)"
  from findBestMatch_Some_split[OF this]
  obtain ys p zs where len: "\<forall>p\<in>set ps. length (descriptor p) = length q"
    and ps: "ps = ys @ p # zs"
    and m: "m = \<lparr>personId = id_Stored p, similarity = similarityOf q p\<rparr>"
    and thr: "0.4 \<le> similarityOf q p" by blast
  have pin: "p \<in> set ps" using ps by simp
  then have "compareFaces q (descriptor p) = Inr (similarityOf q p)"
    using len by (intro compareFaces_similarityOf) simp
  then have "\<exists>p\<in>set ps. personId m = id_Stored p \<and>
        compareFaces q (descriptor p) = Inr (similarity m)"
    using pin m by auto
  moreover have "0.4 \<le> similarity m" using thr m by simp
  moreover have "similarity m \<le> 1" using similarityOf_range[of q p] m by simp
  moreover have "m \<noteq> \<lparr>personId = - 1, similarity = 0\<rparr>" using thr m by auto
  ultimately show ?thesis by blast
qed

theorem findBestMatch_result_sound_witness:
  "findBestMatch [0, 0] [\<lparr>id_Stored = 1, descriptor = [0, 0]\<rparr>] =
     Inr (Some \<lparr>personId = 1, similarity = 1\<rparr>) \<and>
   0.4 \<le> similarity \<lparr>personId = 1, similarity = 1\<rparr> \<and>
   similarity \<lparr>personId = 1, similarity = 1\<rparr> \<le> 1 \<and>
   \<lparr>personId = 1, similarity = 1\<rparr> \<noteq> \<lparr>personId = - 1, similarity = 0\<rparr>"
proof -
  have h: "findBestMatch [0, 0] [\<lparr>id_Stored = 1, descriptor = [0, 0]\<rparr>] =
     Inr (Some \<lparr>personId = 1, similarity = 1\<rparr>)"
    by (simp add: compareFaces_def euclideanDistance_def findBestMatch_def MATCH_THRESHOLD_def)
  from findBestMatch_result_sound [OF h] h show ?thesis by simp
qed

section \<open>Properties of the recognition loop\<close>

lemma recognize_no_face:
  assumes "recognitionLoopRef s" "videoRef s" "modelsReadyRef s"
  shows "recognize db s None = Inr (s\<lparr>isTracking := False, recognitionStatus := ''Scanning...''\<rparr>)"
  using assms by (simp add: recognize_def)

lemma recognize_unknown:
  assumes "recognitionLoopRef s" "videoRef s" "modelsReadyRef s"
    and "descriptor_Result r = Some d"
    and "storedDescriptorsRef s \<noteq> []"
    and "findBestMatch d (storedDescriptorsRef s) = Inr None"
  shows "recognize db s (Some r) =
     Inr (if lastMatchedIdRef s \<noteq> None
          then s\<lparr>targetPosRef := \<lparr>pos_x = min (pos_x (position r) + 8) 85,
                                   pos_y = max (pos_y (position r) - 5) 10\<rparr>,
                 isTracking := True, recognitionStatus := ''Unknown face'',
                 lastMatchedIdRef := None, detectedPerson := None\<rparr>
          else s\<lparr>targetPosRef := \<lparr>pos_x = min (pos_x (position r) + 8) 85,
                                   pos_y = max (pos_y (position r) - 5) 10\<rparr>,
                 isTracking := True, recognitionStatus := ''Unknown face''\<rparr>)"
  using assms by (simp add: recognize_def)

lemma findBestMatch_Some_nonempty:
  "findBestMatch d ps = Inr (Some m) \<Longrightarrow> ps \<noteq> []"
  by (auto simp: findBestMatch_def)

lemma recognize_same:
  assumes "recognitionLoopRef s" "videoRef s" "modelsReadyRef s"
    and "descriptor_Result r = Some d"
    and m: "findBestMatch d (storedDescriptorsRef s) = Inr (Some m)"
    and "lastMatchedIdRef s = Some (personId m)"
  shows "recognize db s (Some r) =
     Inr (s\<lparr>targetPosRef := \<lparr>pos_x = min (pos_x (position r) + 8) 85,
                              pos_y = max (pos_y (position r) - 5) 10\<rparr>,
            isTracking := True\<rparr>)"
  using assms findBestMatch_Some_nonempty[OF m] by (simp add: recognize_def)

lemma recognize_new:
  assumes "recognitionLoopRef s" "videoRef s" "modelsReadyRef s"
    and "descriptor_Result r = Some d"
    and m: "findBestMatch d (storedDescriptorsRef s) = Inr (Some m)"
    and "lastMatchedIdRef s \<noteq> Some (personId m)"
    and "find (\<lambda>p. id_Person p = Some (personId m)) (allPeopleRef s) = Some matchedPerson"
  shows "recognize db s (Some r) =
     Inr (s\<lparr>targetPosRef := \<lparr>pos_x = min (pos_x (position r) + 8) 85,
                              pos_y = max (pos_y (position r) - 5) 10\<rparr>,
            isTracking := True,
            lastMatchedIdRef := Some (personId m),
            fetched := fetched s @ [personId m],
            detectedPerson := Some
              \<lparr>id_Person = id_Person matchedPerson, name = name matchedPerson,
               relation = relation matchedPerson,
               faceDescriptor = faceDescriptor matchedPerson,
               lastConvo = Some
                 (case db (personId m) of
                    None \<Rightarrow> ''No recent conversations recorded.''
                  | Some c \<Rightarrow> if summary c = [] then ''No recent conversations recorded.''
                              else summary c)\<rparr>,
            recognitionStatus :=
              ''Recognized ('' @ showInt (Math_round (similarity m * 100)) @ ''%)''\<rparr>)"
  using assms findBestMatch_Some_nonempty[OF m] by (simp add: recognize_def)

lemma recognize_not_ready:
  assumes "\<not> (recognitionLoopRef s \<and> videoRef s \<and> modelsReadyRef s)"
  shows "recognize db s result = Inr s"
  using assms by (auto simp: recognize_def)

lemma recognize_no_descriptor:
  assumes "recognitionLoopRef s" "videoRef s" "modelsReadyRef s"
    and "descriptor_Result r = None \<or> storedDescriptorsRef s = []"
  shows "recognize db s (Some r) =
     Inr (s\<lparr>targetPosRef := \<lparr>pos_x = min (pos_x (position r) + 8) 85,
                              pos_y = max (pos_y (position r) - 5) 10\<rparr>,
            isTracking := True,
            recognitionStatus := (if storedDescriptorsRef s = [] then ''No faces registered''
                                  else ''Analyzing face...'')\<rparr>)"
  using assms by (cases "descriptor_Result r") (auto simp: recognize_def Let_def)

lemma recognize_throws:
  assumes "recognitionLoopRef s" "videoRef s" "modelsReadyRef s"
    and "descriptor_Result r = Some d"
    and "storedDescriptorsRef s \<noteq> []"
    and "findBestMatch d (storedDescriptorsRef s) = Inl e"
  shows "recognize db s (Some r) =
     Inl (e, s\<lparr>targetPosRef := \<lparr>pos_x = min (pos_x (position r) + 8) 85,
                                 pos_y = max (pos_y (position r) - 5) 10\<rparr>,
               isTracking := True\<rparr>)"
  using assms by (simp add: recognize_def)

lemma recognize_new_unlisted:
  assumes "recognitionLoopRef s" "videoRef s" "modelsReadyRef s"
    and "descriptor_Result r = Some d"
    and m: "findBestMatch d (storedDescriptorsRef s) = Inr (Some m)"
    and "lastMatchedIdRef s \<noteq> Some (personId m)"
    and "find (\<lambda>p. id_Person p = Some (personId m)) (allPeopleRef s) = None"
  shows "recognize db s (Some r) =
     Inr (s\<lparr>targetPosRef := \<lparr>pos_x = min (pos_x (position r) + 8) 85,
                              pos_y = max (pos_y (position r) - 5) 10\<rparr>,
            isTracking := True,
            lastMatchedIdRef := Some (personId m)\<rparr>)"
  using assms findBestMatch_Some_nonempty[OF m] by (simp add: recognize_def)

lemma recognize_effect:
  assumes "recognize db s result = Inr s' \<or> recognize db s result = Inl (e, s')"
  shows "storedDescriptorsRef s' = storedDescriptorsRef s \<and> allPeopleRef s' = allPeopleRef s \<and>
     ((lastMatchedIdRef s' = lastMatchedIdRef s \<and> detectedPerson s' = detectedPerson s) \<or>
      (lastMatchedIdRef s \<noteq> None \<and> lastMatchedIdRef s' = None \<and> detectedPerson s' = None) \<or>
      (\<exists>d m. findBestMatch d (storedDescriptorsRef s) = Inr (Some m) \<and>
         lastMatchedIdRef s' = Some (personId m) \<and>
         (case find (\<lambda>p. id_Person p = Some (personId m)) (allPeopleRef s) of
            None \<Rightarrow> detectedPerson s' = detectedPerson s
          | Some p \<Rightarrow> \<exists>dp. detectedPerson s' = Some dp \<and> id_Person dp = id_Person p)))"
proof (cases "recognitionLoopRef s \<and> videoRef s \<and> modelsReadyRef s")
  case False
  then have "recognize db s result = Inr s" by (rule recognize_not_ready)
  with assms show ?thesis by auto
next
  case ready: True
  then have rdy: "recognitionLoopRef s" "videoRef s" "modelsReadyRef s" by simp_all
  show ?thesis
  proof (cases result)
    case None
    then show ?thesis using assms recognize_no_face[OF rdy, of db] by auto
  next
    case (Some r)
    show ?thesis
    proof (cases "descriptor_Result r = None \<or> storedDescriptorsRef s = []")
      case True
      from recognize_no_descriptor[OF rdy True, of db] assms Some show ?thesis by auto
    next
      case False
      then obtain d where d: "descriptor_Result r = Some d"
        and ne: "storedDescriptorsRef s \<noteq> []" by auto
      show ?thesis
      proof (cases "findBestMatch d (storedDescriptorsRef s)")
        case (Inl err)
        from recognize_throws[OF rdy d ne Inl, of db] assms Some show ?thesis by auto
      next
        case (Inr res)
        show ?thesis
        proof (cases res)
          case None
          with Inr have n: "findBestMatch d (storedDescriptorsRef s) = Inr None" by simp
          from recognize_unknown[OF rdy d ne n, of db] assms Some show ?thesis
            by (cases "lastMatchedIdRef s = None") auto
        next
          case (Some m)
          with Inr have m: "findBestMatch d (storedDescriptorsRef s) = Inr (Some m)" by simp
          show ?thesis
          proof (cases "lastMatchedIdRef s = Some (personId m)")
            case True
            from recognize_same[OF rdy d m True, of db] assms \<open>result = Some r\<close>
            show ?thesis by auto
          next
            case new: False
            show ?thesis
            proof (cases "find (\<lambda>p. id_Person p = Some (personId m)) (allPeopleRef s)")
              case None
              from recognize_new_unlisted[OF rdy d m new None, of db] assms \<open>result = Some r\<close>
              have "storedDescriptorsRef s' = storedDescriptorsRef s"
                "allPeopleRef s' = allPeopleRef s"
                "lastMatchedIdRef s' = Some (personId m)"
                "detectedPerson s' = detectedPerson s" by auto
              with m None show ?thesis
                by (intro conjI disjI2 exI[of _ d] exI[of _ m]) simp_all
            next
              case (Some p)
              from recognize_new[OF rdy d m new Some, of db] assms \<open>result = Some r\<close>
              have "storedDescriptorsRef s' = storedDescriptorsRef s"
                "allPeopleRef s' = allPeopleRef s"
                "lastMatchedIdRef s' = Some (personId m)"
                "\<exists>dp. detectedPerson s' = Some dp \<and> id_Person dp = id_Person p" by auto
              with m Some show ?thesis
                by (intro conjI disjI2 exI[of _ d] exI[of _ m]) simp_all
            qed
          qed
        qed
      qed
    qed
  qed
qed

lemma buildDescriptors_listed:
  "c \<in> set (buildDescriptors people) \<Longrightarrow> \<exists>p\<in>set people. id_Person p = Some (id_Stored c)"
  by (induction people) (auto split: option.splits if_splits)

lemma find_listed:
  assumes "\<exists>p\<in>set ps. P p"
  shows "\<exists>p. find P ps = Some p \<and> P p"
proof (cases "find P ps")
  case None
  then show ?thesis using assms by (simp add: find_None_iff)
next
  case (Some p)
  then show ?thesis by (auto simp: find_Some_iff)
qed

lemma initializeAR_fields:
  "detectedPerson (initializeAR people loaded cam) = None"
  "lastMatchedIdRef (initializeAR people loaded cam) = None"
  "storedDescriptorsRef (initializeAR people loaded cam) = buildDescriptors people"
  "allPeopleRef (initializeAR people loaded cam) = people"
  "fetched (initializeAR people loaded cam) = []"
  by (cases cam; simp add: initializeAR_def startCamera_def startFaceRecognition_def
      initialState_def)+

lemma findBestMatch_Some_listed:
  assumes "findBestMatch d ps = Inr (Some m)"
  shows "\<exists>c\<in>set ps. personId m = id_Stored c"
proof -
  from findBestMatch_Some_split[OF assms] obtain ys p zs where
    ps: "ps = ys @ p # zs" and m: "m = \<lparr>personId = id_Stored p, similarity = similarityOf d p\<rparr>"
    by blast
  have "p \<in> set ps" using ps by simp
  moreover have "personId m = id_Stored p" using m by simp
  ultimately show ?thesis by blast
qed

lemma recognize_invariant:
  assumes step: "recognize db s result = Inr s' \<or> recognize db s result = Inl (e, s')"
    and inv: "(lastMatchedIdRef s = None \<longleftrightarrow> detectedPerson s = None) \<and>
      (\<forall>p. detectedPerson s = Some p \<longrightarrow> id_Person p = lastMatchedIdRef s)"
    and roster: "\<forall>c\<in>set (storedDescriptorsRef s).
        \<exists>p\<in>set (allPeopleRef s). id_Person p = Some (id_Stored c)"
  shows "((lastMatchedIdRef s' = None \<longleftrightarrow> detectedPerson s' = None) \<and>
      (\<forall>p. detectedPerson s' = Some p \<longrightarrow> id_Person p = lastMatchedIdRef s')) \<and>
     (\<forall>c\<in>set (storedDescriptorsRef s').
        \<exists>p\<in>set (allPeopleRef s'). id_Person p = Some (id_Stored c))"
proof -
  from recognize_effect[OF step] have
    same: "storedDescriptorsRef s' = storedDescriptorsRef s" "allPeopleRef s' = allPeopleRef s"
    and cases: "(lastMatchedIdRef s' = lastMatchedIdRef s \<and> detectedPerson s' = detectedPerson s) \<or>
      (lastMatchedIdRef s \<noteq> None \<and> lastMatchedIdRef s' = None \<and> detectedPerson s' = None) \<or>
      (\<exists>d m. findBestMatch d (storedDescriptorsRef s) = Inr (Some m) \<and>
         lastMatchedIdRef s' = Some (personId m) \<and>
         (case find (\<lambda>p. id_Person p = Some (personId m)) (allPeopleRef s) of
            None \<Rightarrow> detectedPerson s' = detectedPerson s
          | Some p \<Rightarrow> \<exists>dp. detectedPerson s' = Some dp \<and> id_Person dp = id_Person p))"
    by simp_all
  have roster': "\<forall>c\<in>set (storedDescriptorsRef s').
        \<exists>p\<in>set (allPeopleRef s'). id_Person p = Some (id_Stored c)"
    using roster same by simp
  from cases have "(lastMatchedIdRef s' = None \<longleftrightarrow> detectedPerson s' = None) \<and>
      (\<forall>p. detectedPerson s' = Some p \<longrightarrow> id_Person p = lastMatchedIdRef s')"
  proof (elim disjE exE conjE)
    assume "lastMatchedIdRef s' = lastMatchedIdRef s" "detectedPerson s' = detectedPerson s"
    then show ?thesis using inv by simp
  next
    assume "lastMatchedIdRef s' = None" "detectedPerson s' = None"
    then show ?thesis by simp
  next
    fix d m
    assume m: "findBestMatch d (storedDescriptorsRef s) = Inr (Some m)"
      and last: "lastMatchedIdRef s' = Some (personId m)"
      and shown: "case find (\<lambda>p. id_Person p = Some (personId m)) (allPeopleRef s) of
            None \<Rightarrow> detectedPerson s' = detectedPerson s
          | Some p \<Rightarrow> \<exists>dp. detectedPerson s' = Some dp \<and> id_Person dp = id_Person p"
    from findBestMatch_Some_listed[OF m] obtain c where
      "c \<in> set (storedDescriptorsRef s)" "personId m = id_Stored c" by blast
    with roster have "\<exists>p\<in>set (allPeopleRef s). id_Person p = Some (personId m)" by simp
    from find_listed[OF this] obtain p where
      f: "find (\<lambda>p. id_Person p = Some (personId m)) (allPeopleRef s) = Some p"
      and p: "id_Person p = Some (personId m)" by blast
    from shown f obtain dp where "detectedPerson s' = Some dp" "id_Person dp = id_Person p"
      by auto
    with p last show ?thesis by simp
  qed
  with roster' show ?thesis by simp
qed


lemma recognize_phases:
  "recognize db s result =
     (case recognize_until_await s result of
        Inl failure \<Rightarrow> Inl failure
      | Inr (Returned s') \<Rightarrow> Inr s'
      | Inr (Awaiting s2 p m) \<Rightarrow> recognize_after_await (Inr (db (personId m))) s2 p m)"
  by (simp add: recognize_def recognize_until_await_def recognize_after_await_def Let_def
      split: option.splits sum.splits bool.splits prod.splits)

lemma recognize_until_await_Returned:
  "recognize_until_await s result = Inr (Returned s') \<Longrightarrow> recognize db s result = Inr s'"
  by (simp add: recognize_phases)

lemma recognize_until_await_throws:
  "recognize_until_await s result = Inl failure \<Longrightarrow> recognize db s result = Inl failure"
  by (simp add: recognize_phases)

lemma recognize_until_await_Awaiting:
  assumes "recognize_until_await s result = Inr (Awaiting s2 p m)"
  shows "\<exists>r d. result = Some r \<and> descriptor_Result r = Some d \<and>
           recognitionLoopRef s \<and> videoRef s \<and> modelsReadyRef s \<and>
           findBestMatch d (storedDescriptorsRef s) = Inr (Some m) \<and>
           lastMatchedIdRef s \<noteq> Some (personId m) \<and>
           find (\<lambda>p. id_Person p = Some (personId m)) (allPeopleRef s) = Some p \<and>
           s2 = s\<lparr>targetPosRef := \<lparr>pos_x = min (pos_x (position r) + 8) 85,
                                     pos_y = max (pos_y (position r) - 5) 10\<rparr>,
                   isTracking := True,
                   lastMatchedIdRef := Some (personId m),
                   fetched := fetched s @ [personId m]\<rparr>"
  using assms
  by (auto simp: recognize_until_await_def Let_def
      split: if_splits option.splits sum.splits bool.splits prod.splits)

lemma find_holds: "find P ps = Some p \<Longrightarrow> P p"
  by (auto simp: find_Some_iff)

lemma recognize_until_await_Awaiting_fields:
  assumes "recognize_until_await s result = Inr (Awaiting s2 p m)"
  shows "id_Person p = Some (personId m) \<and>
         lastMatchedIdRef s \<noteq> Some (personId m) \<and>
         lastMatchedIdRef s2 = Some (personId m) \<and>
         detectedPerson s2 = detectedPerson s \<and>
         storedDescriptorsRef s2 = storedDescriptorsRef s \<and>
         allPeopleRef s2 = allPeopleRef s \<and>
         fetched s2 = fetched s @ [personId m]"
  using recognize_until_await_Awaiting[OF assms] by (auto dest: find_holds)

lemma session_invariant:
  "session ph s \<Longrightarrow>
     (\<forall>c\<in>set (storedDescriptorsRef s). \<exists>p\<in>set (allPeopleRef s). id_Person p = Some (id_Stored c)) \<and>
     (detectedPerson s \<noteq> None \<longrightarrow> lastMatchedIdRef s \<noteq> None) \<and>
     (ph = Polling \<longrightarrow>
        (lastMatchedIdRef s = None \<longleftrightarrow> detectedPerson s = None) \<and>
        (\<forall>p. detectedPerson s = Some p \<longrightarrow> id_Person p = lastMatchedIdRef s)) \<and>
     (\<forall>p m. ph = Pending p m \<longrightarrow>
        lastMatchedIdRef s = Some (personId m) \<and> id_Person p = Some (personId m))"
proof (induction rule: session.induct)
  case (init people loaded cam)
  show ?case by (auto simp: initializeAR_fields dest: buildDescriptors_listed)
next
  case (poll s result s')
  from poll.hyps(2) have "recognize undefined s result = Inr s'"
    by (rule recognize_until_await_Returned)
  then have "recognize undefined s result = Inr s' \<or>
      recognize undefined s result = Inl (undefined, s')" by simp
  from recognize_invariant[OF this] poll.IH
  have "((lastMatchedIdRef s' = None \<longleftrightarrow> detectedPerson s' = None) \<and>
      (\<forall>p. detectedPerson s' = Some p \<longrightarrow> id_Person p = lastMatchedIdRef s')) \<and>
     (\<forall>c\<in>set (storedDescriptorsRef s').
        \<exists>p\<in>set (allPeopleRef s'). id_Person p = Some (id_Stored c))" by blast
  then show ?case by auto
next
  case (poll_throws s result e s')
  from poll_throws.hyps(2) have "recognize undefined s result = Inl (e, s')"
    by (rule recognize_until_await_throws)
  then have "recognize undefined s result = Inr s' \<or>
      recognize undefined s result = Inl (e, s')" by simp
  from recognize_invariant[OF this] poll_throws.IH
  have "((lastMatchedIdRef s' = None \<longleftrightarrow> detectedPerson s' = None) \<and>
      (\<forall>p. detectedPerson s' = Some p \<longrightarrow> id_Person p = lastMatchedIdRef s')) \<and>
     (\<forall>c\<in>set (storedDescriptorsRef s').
        \<exists>p\<in>set (allPeopleRef s'). id_Person p = Some (id_Stored c))" by blast
  then show ?case by auto
next
  case (await s result s2 p m)
  from recognize_until_await_Awaiting_fields[OF await.hyps(2)] await.IH
  show ?case by simp
next
  case (answered p m s2 convo s')
  then show ?case by (auto simp: recognize_after_await_def)
next
  case (rejected p m s2 e e' s')
  from rejected.hyps(2) have "s' = s2" by (simp add: recognize_after_await_def)
  with rejected.IH show ?case by simp
next
  case (frame ph s)
  then show ?case by (simp add: animate_def Let_def)
next
  case (stop ph s)
  then show ?case by (simp add: stopVideo_def)
qed

lemma reachable_roster:
  assumes "reachable s"
  shows "\<forall>c\<in>set (storedDescriptorsRef s). \<exists>p\<in>set (allPeopleRef s). id_Person p = Some (id_Stored c)"
proof -
  from assms obtain ph where "session ph s" by (auto simp: reachable_def)
  from session_invariant[OF this] show ?thesis by simp
qed

lemma session_reachable: "session ph s \<Longrightarrow> reachable s"
  by (auto simp: reachable_def)

lemma session_whole_cycle:
  assumes "session Polling s" and c: "recognize db s result = Inr s'"
  shows "session Polling s'"
proof (cases "recognize_until_await s result")
  case (Inl failure)
  with c show ?thesis by (simp add: recognize_phases)
next
  case (Inr cyc)
  show ?thesis
  proof (cases cyc)
    case (Returned t)
    with Inr c have "t = s'" by (simp add: recognize_phases)
    with Inr Returned assms(1) show ?thesis by (auto intro: session.poll)
  next
    case (Awaiting s2 p m)
    with Inr have u: "recognize_until_await s result = Inr (Awaiting s2 p m)" by simp
    with c have a: "recognize_after_await (Inr (db (personId m))) s2 p m = Inr s'"
      by (simp add: recognize_phases)
    from session.await[OF assms(1) u] have "session (Pending p m) s2" .
    from session.answered[OF this a] show ?thesis .
  qed
qed

lemma recognize_after_await_answered:
  "recognize_after_await (Inr convo) s2 p m = Inr s' \<Longrightarrow>
     lastMatchedIdRef s' = lastMatchedIdRef s2 \<and>
     (\<exists>dp. detectedPerson s' = Some dp \<and> id_Person dp = id_Person p)"
  by (auto simp: recognize_after_await_def)

lemma recognize_after_await_total:
  "\<exists>s'. recognize_after_await (Inr convo) s2 p m = Inr s'"
  by (simp add: recognize_after_await_def)

lemma recognize_unmatched_clears:
  assumes "recognize db s result = Inr s'"
    and "lastMatchedIdRef s \<noteq> None" and "lastMatchedIdRef s' = None"
  shows "detectedPerson s' = None"
proof -
  from assms(1) have "recognize db s result = Inr s' \<or> recognize db s result = Inl (undefined, s')"
    by simp
  from recognize_effect[OF this] assms(2,3) show ?thesis by auto
qed

text \<open>
  Claim C3. A poll cycle with no face sets the status to "Scanning..." and clears the
  tracking flag, and leaves \<open>lastMatchedIdRef\<close> and the displayed person as they are. A
  cycle with a face whose embedding the matcher answers with none (the matcher is asked
  when there are stored descriptors) sets the status to "Unknown face"; it clears the
  displayed person and \<open>lastMatchedIdRef\<close> when a person was matched before, and leaves the
  displayed person untouched when none was.
\<close>

theorem recognize_no_face_keeps_identity:
  "recognitionLoopRef s \<and> videoRef s \<and> modelsReadyRef s \<longrightarrow>
     (\<exists>s'. recognize db s None = Inr s' \<and>
        recognitionStatus s' = ''Scanning...'' \<and> \<not> isTracking s' \<and>
        lastMatchedIdRef s' = lastMatchedIdRef s \<and> detectedPerson s' = detectedPerson s) \<and>
     (descriptor_Result r = Some d \<and> storedDescriptorsRef s \<noteq> [] \<and>
      findBestMatch d (storedDescriptorsRef s) = Inr None \<longrightarrow>
        (\<exists>s'. recognize db s (Some r) = Inr s' \<and>
           recognitionStatus s' = ''Unknown face'' \<and>
           lastMatchedIdRef s' = None \<and>
           detectedPerson s' =
             (if lastMatchedIdRef s \<noteq> None then None else detectedPerson s)))"
proof (intro impI conjI)
  assume "recognitionLoopRef s \<and> videoRef s \<and> modelsReadyRef s"
  then have rdy: "recognitionLoopRef s" "videoRef s" "modelsReadyRef s" by simp_all
  show "\<exists>s'. recognize db s None = Inr s' \<and>
        recognitionStatus s' = ''Scanning...'' \<and> \<not> isTracking s' \<and>
        lastMatchedIdRef s' = lastMatchedIdRef s \<and> detectedPerson s' = detectedPerson s"
    using recognize_no_face[OF rdy, of db] by simp
  assume "descriptor_Result r = Some d \<and> storedDescriptorsRef s \<noteq> [] \<and>
      findBestMatch d (storedDescriptorsRef s) = Inr None"
  then have u: "descriptor_Result r = Some d" "storedDescriptorsRef s \<noteq> []"
    "findBestMatch d (storedDescriptorsRef s) = Inr None" by simp_all
  show "\<exists>s'. recognize db s (Some r) = Inr s' \<and>
           recognitionStatus s' = ''Unknown face'' \<and>
           lastMatchedIdRef s' = None \<and>
           detectedPerson s' =
             (if lastMatchedIdRef s \<noteq> None then None else detectedPerson s)"
    using recognize_unknown[OF rdy u, of db] by (cases "lastMatchedIdRef s = None") simp_all
qed

theorem recognize_no_face_keeps_identity_witness:
  "recognitionLoopRef 
     (sample_session\<lparr>lastMatchedIdRef := Some 1, detectedPerson := Some sample_overlay\<rparr>) \<and>
   videoRef 
     (sample_session\<lparr>lastMatchedIdRef := Some 1, detectedPerson := Some sample_overlay\<rparr>) \<and>
   modelsReadyRef 
     (sample_session\<lparr>lastMatchedIdRef := Some 1, detectedPerson := Some sample_overlay\<rparr>) \<and>
   map_sum (\<lambda>f. f) lastMatchedIdRef (recognize no_conversations 
     (sample_session\<lparr>lastMatchedIdRef := Some 1, detectedPerson := Some sample_overlay\<rparr>) None) = Inr (Some 1) \<and>
   map_sum (\<lambda>f. f) detectedPerson (recognize no_conversations 
     (sample_session\<lparr>lastMatchedIdRef := Some 1, detectedPerson := Some sample_overlay\<rparr>) None) =
     Inr (Some sample_overlay) \<and>
   storedDescriptorsRef 
     (sample_session\<lparr>lastMatchedIdRef := Some 1, detectedPerson := Some sample_overlay\<rparr>) \<noteq> [] \<and>
   findBestMatch [0, 1] (storedDescriptorsRef 
     (sample_session\<lparr>lastMatchedIdRef := Some 1, detectedPerson := Some sample_overlay\<rparr>)) = Inr None \<and>
   map_sum (\<lambda>f. f) recognitionStatus
     (recognize no_conversations 
     (sample_session\<lparr>lastMatchedIdRef := Some 1, detectedPerson := Some sample_overlay\<rparr>) (Some (sample_face [0, 1]))) = Inr ''Unknown face'' \<and>
   map_sum (\<lambda>f. f) lastMatchedIdRef
     (recognize no_conversations 
     (sample_session\<lparr>lastMatchedIdRef := Some 1, detectedPerson := Some sample_overlay\<rparr>) (Some (sample_face [0, 1]))) = Inr None \<and>
   map_sum (\<lambda>f. f) detectedPerson
     (recognize no_conversations 
     (sample_session\<lparr>lastMatchedIdRef := Some 1, detectedPerson := Some sample_overlay\<rparr>) (Some (sample_face [0, 1]))) = Inr None"
  using recognize_no_face_keeps_identity [of "
     (sample_session\<lparr>lastMatchedIdRef := Some 1, detectedPerson := Some sample_overlay\<rparr>)" no_conversations "sample_face [0, 1]" "[0, 1]"]
  by (auto simp: initializeAR_def startCamera_def startFaceRecognition_def initialState_def
      findBestMatch_def compareFaces_def euclideanDistance_def MATCH_THRESHOLD_def
      sample_person_def sample_overlay_def sample_session_def sample_face_def no_conversations_def)

text \<open>
  Claim C4, as the code has it. When a poll cycle produces a match whose id is the current
  \<open>lastMatchedIdRef\<close>, the cycle only refreshes the target position and sets the tracking
  flag: \<open>lastMatchedIdRef\<close>, the displayed person, the status label and the fetches made
  are as before. And from a reachable state in which that identity is not the one matched,
  two consecutive cycles that match the same identity make exactly one call of
  \<open>getLatestConversation\<close>.
\<close>

theorem recognize_same_identity_debounced:
  "(recognitionLoopRef s \<and> videoRef s \<and> modelsReadyRef s \<and>
    descriptor_Result r = Some d \<and>
    findBestMatch d (storedDescriptorsRef s) = Inr (Some m) \<and>
    lastMatchedIdRef s = Some (personId m) \<longrightarrow>
      recognize db s (Some r) =
        Inr (s\<lparr>targetPosRef := \<lparr>pos_x = min (pos_x (position r) + 8) 85,
                                 pos_y = max (pos_y (position r) - 5) 10\<rparr>,
               isTracking := True\<rparr>)) \<and>
   (reachable s \<and> recognitionLoopRef s \<and> videoRef s \<and> modelsReadyRef s \<and>
    descriptor_Result r1 = Some d1 \<and> descriptor_Result r2 = Some d2 \<and>
    findBestMatch d1 (storedDescriptorsRef s) = Inr (Some m1) \<and>
    findBestMatch d2 (storedDescriptorsRef s) = Inr (Some m2) \<and>
    personId m2 = personId m1 \<and> lastMatchedIdRef s \<noteq> Some (personId m1) \<longrightarrow>
      (\<exists>s''. recognize_loop db s [Some r1, Some r2] = Inr s'' \<and>
          fetched s'' = fetched s @ [personId m1] \<and>
          lastMatchedIdRef s'' = Some (personId m1)))"
proof (intro conjI impI)
  assume "recognitionLoopRef s \<and> videoRef s \<and> modelsReadyRef s \<and>
    descriptor_Result r = Some d \<and>
    findBestMatch d (storedDescriptorsRef s) = Inr (Some m) \<and>
    lastMatchedIdRef s = Some (personId m)"
  then show "recognize db s (Some r) =
        Inr (s\<lparr>targetPosRef := \<lparr>pos_x = min (pos_x (position r) + 8) 85,
                                 pos_y = max (pos_y (position r) - 5) 10\<rparr>,
               isTracking := True\<rparr>)"
    by (intro recognize_same[of s r d m db]) simp_all
next
  assume a: "reachable s \<and> recognitionLoopRef s \<and> videoRef s \<and> modelsReadyRef s \<and>
    descriptor_Result r1 = Some d1 \<and> descriptor_Result r2 = Some d2 \<and>
    findBestMatch d1 (storedDescriptorsRef s) = Inr (Some m1) \<and>
    findBestMatch d2 (storedDescriptorsRef s) = Inr (Some m2) \<and>
    personId m2 = personId m1 \<and> lastMatchedIdRef s \<noteq> Some (personId m1)"
  then have rdy: "recognitionLoopRef s" "videoRef s" "modelsReadyRef s"
    and d1: "descriptor_Result r1 = Some d1" and d2: "descriptor_Result r2 = Some d2"
    and m1: "findBestMatch d1 (storedDescriptorsRef s) = Inr (Some m1)"
    and m2: "findBestMatch d2 (storedDescriptorsRef s) = Inr (Some m2)"
    and same: "personId m2 = personId m1"
    and new: "lastMatchedIdRef s \<noteq> Some (personId m1)" by simp_all
  from a have "reachable s" by simp
  from reachable_roster[OF this] have roster: "\<forall>c\<in>set (storedDescriptorsRef s).
      \<exists>p\<in>set (allPeopleRef s). id_Person p = Some (id_Stored c)" .
  from findBestMatch_Some_listed[OF m1] obtain c where
    "c \<in> set (storedDescriptorsRef s)" "personId m1 = id_Stored c" by blast
  with roster have "\<exists>p\<in>set (allPeopleRef s). id_Person p = Some (personId m1)" by simp
  from find_listed[OF this] obtain p where
    f: "find (\<lambda>p. id_Person p = Some (personId m1)) (allPeopleRef s) = Some p" by blast
  define s1 where "s1 = s\<lparr>targetPosRef := \<lparr>pos_x = min (pos_x (position r1) + 8) 85,
                              pos_y = max (pos_y (position r1) - 5) 10\<rparr>,
            isTracking := True,
            lastMatchedIdRef := Some (personId m1),
            fetched := fetched s @ [personId m1],
            detectedPerson := Some
              \<lparr>id_Person = id_Person p, name = name p,
               relation = relation p,
               faceDescriptor = faceDescriptor p,
               lastConvo = Some
                 (case db (personId m1) of
                    None \<Rightarrow> ''No recent conversations recorded.''
                  | Some c \<Rightarrow> if summary c = [] then ''No recent conversations recorded.''
                              else summary c)\<rparr>,
            recognitionStatus :=
              ''Recognized ('' @ showInt (Math_round (similarity m1 * 100)) @ ''%)''\<rparr>"
  have c1: "recognize db s (Some r1) = Inr s1"
    unfolding s1_def by (rule recognize_new[OF rdy d1 m1 new f])
  have rdy1: "recognitionLoopRef s1" "videoRef s1" "modelsReadyRef s1"
    using rdy by (simp_all add: s1_def)
  have m2': "findBestMatch d2 (storedDescriptorsRef s1) = Inr (Some m2)"
    using m2 by (simp add: s1_def)
  have last1: "lastMatchedIdRef s1 = Some (personId m2)" using same by (simp add: s1_def)
  define s2 where "s2 = s1\<lparr>targetPosRef := \<lparr>pos_x = min (pos_x (position r2) + 8) 85,
                                 pos_y = max (pos_y (position r2) - 5) 10\<rparr>,
               isTracking := True\<rparr>"
  have c2: "recognize db s1 (Some r2) = Inr s2"
    unfolding s2_def by (rule recognize_same[OF rdy1 d2 m2' last1])
  have "recognize_loop db s [Some r1, Some r2] = Inr s2" using c1 c2 by simp
  moreover have "fetched s2 = fetched s @ [personId m1]" by (simp add: s2_def s1_def)
  moreover have "lastMatchedIdRef s2 = Some (personId m1)" by (simp add: s2_def s1_def)
  ultimately show "\<exists>s''. recognize_loop db s [Some r1, Some r2] = Inr s'' \<and>
          fetched s'' = fetched s @ [personId m1] \<and>
          lastMatchedIdRef s'' = Some (personId m1)" by blast
qed

theorem recognize_same_identity_debounced_witness:
  "reachable sample_session \<and> recognitionLoopRef sample_session \<and>
   videoRef sample_session \<and> modelsReadyRef sample_session \<and>
   findBestMatch [0, 0] (storedDescriptorsRef sample_session) =
     Inr (Some \<lparr>personId = 1, similarity = 1\<rparr>) \<and>
   lastMatchedIdRef sample_session \<noteq> Some 1 \<and>
   map_sum (\<lambda>f. f) fetched
     (recognize_loop no_conversations sample_session
        [Some (sample_face [0, 0]), Some (sample_face [0, 0])]) = Inr [1] \<and>
   lastMatchedIdRef (sample_session\<lparr>lastMatchedIdRef := Some 1\<rparr>) = Some 1 \<and>
   recognize no_conversations (sample_session\<lparr>lastMatchedIdRef := Some 1\<rparr>)
     (Some (sample_face [0, 0])) =
     Inr (sample_session\<lparr>lastMatchedIdRef := Some 1,
            targetPosRef := \<lparr>pos_x = 58, pos_y = 45\<rparr>, isTracking := True\<rparr>)"
proof -
  have r: "reachable sample_session"
    unfolding sample_session_def by (rule session_reachable[OF session.init])
  have i: "recognitionLoopRef sample_session \<and> videoRef sample_session \<and>
      modelsReadyRef sample_session \<and>
      storedDescriptorsRef sample_session = [\<lparr>id_Stored = 1, descriptor = [0, 0]\<rparr>] \<and>
      lastMatchedIdRef sample_session = None \<and> fetched sample_session = []"
    by (simp add: initializeAR_def startCamera_def startFaceRecognition_def initialState_def
        sample_session_def sample_person_def)
  have m: "findBestMatch [0, 0] [\<lparr>id_Stored = 1, descriptor = [0, 0]\<rparr>] =
      Inr (Some \<lparr>personId = 1, similarity = 1\<rparr>)"
    by (simp add: findBestMatch_def compareFaces_def euclideanDistance_def MATCH_THRESHOLD_def)
  have f: "descriptor_Result (sample_face [0, 0]) = Some [0, 0] \<and>
      position (sample_face [0, 0]) = \<lparr>pos_x = 50, pos_y = 50, width = 10, height = 10\<rparr>"
    by (simp add: sample_face_def)
  from recognize_same_identity_debounced [where s = "sample_session\<lparr>lastMatchedIdRef := Some 1\<rparr>"
      and r = "sample_face [0, 0]" and d = "[0, 0]"
      and m = "\<lparr>personId = 1, similarity = 1\<rparr>" and db = no_conversations]
    recognize_same_identity_debounced [where s = sample_session and db = no_conversations
      and ?r1.0 = "sample_face [0, 0]" and ?d1.0 = "[0, 0]"
      and ?r2.0 = "sample_face [0, 0]" and ?d2.0 = "[0, 0]"
      and ?m1.0 = "\<lparr>personId = 1, similarity = 1\<rparr>"
      and ?m2.0 = "\<lparr>personId = 1, similarity = 1\<rparr>"]
    r i m f
  show ?thesis by auto
qed

text \<open>
  The state is not left entirely unchanged by such a cycle. After a matched cycle and a
  cycle with no face the tracking flag is off; the next cycle matches the same identity
  again and sets the flag, so the state after it differs from the state before.
\<close>

theorem recognize_same_identity_changes_state:
  "recognize_loop no_conversations sample_session [Some (sample_face [0, 0]), None] =
     Inr
     (sample_session\<lparr>targetPosRef := \<lparr>pos_x = 58, pos_y = 45\<rparr>,
        lastMatchedIdRef := Some 1, fetched := [1],
        detectedPerson := Some sample_overlay,
        recognitionStatus := ''Scanning...''\<rparr>) \<and>
   lastMatchedIdRef
     (sample_session\<lparr>targetPosRef := \<lparr>pos_x = 58, pos_y = 45\<rparr>,
        lastMatchedIdRef := Some 1, fetched := [1],
        detectedPerson := Some sample_overlay,
        recognitionStatus := ''Scanning...''\<rparr>) = Some 1 \<and>
   findBestMatch [0, 0] (storedDescriptorsRef
     (sample_session\<lparr>targetPosRef := \<lparr>pos_x = 58, pos_y = 45\<rparr>,
        lastMatchedIdRef := Some 1, fetched := [1],
        detectedPerson := Some sample_overlay,
        recognitionStatus := ''Scanning...''\<rparr>)) =
     Inr (Some \<lparr>personId = 1, similarity = 1\<rparr>) \<and>
   isTracking
     (sample_session\<lparr>targetPosRef := \<lparr>pos_x = 58, pos_y = 45\<rparr>,
        lastMatchedIdRef := Some 1, fetched := [1],
        detectedPerson := Some sample_overlay,
        recognitionStatus := ''Scanning...''\<rparr>) = False \<and>
   recognize no_conversations
     (sample_session\<lparr>targetPosRef := \<lparr>pos_x = 58, pos_y = 45\<rparr>,
        lastMatchedIdRef := Some 1, fetched := [1],
        detectedPerson := Some sample_overlay,
        recognitionStatus := ''Scanning...''\<rparr>)
     (Some (sample_face [0, 0])) =
     Inr
     (sample_session\<lparr>targetPosRef := \<lparr>pos_x = 58, pos_y = 45\<rparr>,
        lastMatchedIdRef := Some 1, fetched := [1],
        detectedPerson := Some sample_overlay,
        recognitionStatus := ''Scanning...'', isTracking := True\<rparr>) \<and>
   recognize no_conversations
     (sample_session\<lparr>targetPosRef := \<lparr>pos_x = 58, pos_y = 45\<rparr>,
        lastMatchedIdRef := Some 1, fetched := [1],
        detectedPerson := Some sample_overlay,
        recognitionStatus := ''Scanning...''\<rparr>)
     (Some (sample_face [0, 0])) \<noteq>
     Inr
     (sample_session\<lparr>targetPosRef := \<lparr>pos_x = 58, pos_y = 45\<rparr>,
        lastMatchedIdRef := Some 1, fetched := [1],
        detectedPerson := Some sample_overlay,
        recognitionStatus := ''Scanning...''\<rparr>)"
  by (simp add: recognize_def initializeAR_def startCamera_def startFaceRecognition_def initialState_def
      findBestMatch_def compareFaces_def euclideanDistance_def MATCH_THRESHOLD_def
      sample_person_def sample_overlay_def sample_session_def sample_face_def no_conversations_def)

text \<open>
  Claim C5, as the code has it. Between two poll cycles (in the state \<open>initializeAR\<close> leaves
  and after every cycle that has ended) \<open>lastMatchedIdRef\<close> is set exactly when a person is
  displayed, and the person displayed has that id. In every reachable state a displayed
  person comes with a set \<open>lastMatchedIdRef\<close>. In the cycle of a newly matched identity
  \<open>lastMatchedIdRef\<close> is set before the conversation lookup: at the await it is the new id
  while the displayed person is still the one from before the cycle, and when the lookup
  answers the person of that id is displayed. A poll cycle that goes from a matched
  identity to none leaves no person displayed, and a cycle with an unknown face in a
  matched state is such a cycle.
\<close>

theorem overlay_matches_identity_between_cycles:
  "(reachable s \<longrightarrow> (detectedPerson s \<noteq> None \<longrightarrow> lastMatchedIdRef s \<noteq> None)) \<and>
   (session Polling s \<longrightarrow>
      (lastMatchedIdRef s \<noteq> None \<longleftrightarrow> detectedPerson s \<noteq> None) \<and>
      (\<forall>p. detectedPerson s = Some p \<longrightarrow> id_Person p = lastMatchedIdRef s)) \<and>
   (recognize_until_await s result = Inr (Awaiting s2 matchedPerson m) \<longrightarrow>
      lastMatchedIdRef s \<noteq> Some (personId m) \<and>
      lastMatchedIdRef s2 = Some (personId m) \<and>
      detectedPerson s2 = detectedPerson s \<and>
      (\<forall>convo. \<exists>s' shown. recognize_after_await (Inr convo) s2 matchedPerson m = Inr s' \<and>
         lastMatchedIdRef s' = Some (personId m) \<and>
         detectedPerson s' = Some shown \<and> id_Person shown = Some (personId m))) \<and>
   (recognize db s result = Inr s' \<and>
    lastMatchedIdRef s \<noteq> None \<and> lastMatchedIdRef s' = None \<longrightarrow>
      detectedPerson s' = None) \<and>
   (recognitionLoopRef s \<and> videoRef s \<and> modelsReadyRef s \<and>
    descriptor_Result r = Some d \<and> storedDescriptorsRef s \<noteq> [] \<and>
    findBestMatch d (storedDescriptorsRef s) = Inr None \<and> lastMatchedIdRef s \<noteq> None \<longrightarrow>
      (\<exists>s'. recognize db s (Some r) = Inr s' \<and>
         lastMatchedIdRef s' = None \<and> detectedPerson s' = None))"
proof (intro conjI impI)
  assume "reachable s" and shown: "detectedPerson s \<noteq> None"
  then obtain ph where "session ph s" by (auto simp: reachable_def)
  from session_invariant[OF this] shown show "lastMatchedIdRef s \<noteq> None" by simp
next
  assume p: "session Polling s"
  from session_invariant[OF p]
  show "(lastMatchedIdRef s \<noteq> None) = (detectedPerson s \<noteq> None)" by simp
  from session_invariant[OF p]
  show "\<forall>p. detectedPerson s = Some p \<longrightarrow> id_Person p = lastMatchedIdRef s" by simp
next
  assume a: "recognize_until_await s result = Inr (Awaiting s2 matchedPerson m)"
  note f = recognize_until_await_Awaiting_fields[OF a]
  from f show "lastMatchedIdRef s \<noteq> Some (personId m)" by simp
  from f show "lastMatchedIdRef s2 = Some (personId m)" by simp
  from f show "detectedPerson s2 = detectedPerson s" by simp
  show "\<forall>convo. \<exists>s' shown. recognize_after_await (Inr convo) s2 matchedPerson m = Inr s' \<and>
         lastMatchedIdRef s' = Some (personId m) \<and>
         detectedPerson s' = Some shown \<and> id_Person shown = Some (personId m)"
  proof
    fix convo
    from recognize_after_await_total[of convo s2 matchedPerson m] obtain s' where
      s': "recognize_after_await (Inr convo) s2 matchedPerson m = Inr s'" by blast
    from recognize_after_await_answered[OF s'] obtain shown where
      "lastMatchedIdRef s' = lastMatchedIdRef s2" "detectedPerson s' = Some shown"
      "id_Person shown = id_Person matchedPerson" by blast
    with f s' show "\<exists>s' shown. recognize_after_await (Inr convo) s2 matchedPerson m = Inr s' \<and>
         lastMatchedIdRef s' = Some (personId m) \<and>
         detectedPerson s' = Some shown \<and> id_Person shown = Some (personId m)" by simp
  qed
next
  assume "recognize db s result = Inr s' \<and>
    lastMatchedIdRef s \<noteq> None \<and> lastMatchedIdRef s' = None"
  then show "detectedPerson s' = None"
    by (intro recognize_unmatched_clears[of db s result s']) simp_all
next
  assume a: "recognitionLoopRef s \<and> videoRef s \<and> modelsReadyRef s \<and>
    descriptor_Result r = Some d \<and> storedDescriptorsRef s \<noteq> [] \<and>
    findBestMatch d (storedDescriptorsRef s) = Inr None \<and> lastMatchedIdRef s \<noteq> None"
  then have "recognize db s (Some r) =
     Inr (if lastMatchedIdRef s \<noteq> None
          then s\<lparr>targetPosRef := \<lparr>pos_x = min (pos_x (position r) + 8) 85,
                                   pos_y = max (pos_y (position r) - 5) 10\<rparr>,
                 isTracking := True, recognitionStatus := ''Unknown face'',
                 lastMatchedIdRef := None, detectedPerson := None\<rparr>
          else s\<lparr>targetPosRef := \<lparr>pos_x = min (pos_x (position r) + 8) 85,
                                   pos_y = max (pos_y (position r) - 5) 10\<rparr>,
                 isTracking := True, recognitionStatus := ''Unknown face''\<rparr>)"
    by (intro recognize_unknown[of s r d db]) simp_all
  with a show "\<exists>s'. recognize db s (Some r) = Inr s' \<and>
         lastMatchedIdRef s' = None \<and> detectedPerson s' = None" by simp
qed

theorem overlay_matches_identity_between_cycles_witness:
  "recognize_until_await sample_session (Some (sample_face [0, 0])) =
     Inr (Awaiting
     (sample_session\<lparr>targetPosRef := \<lparr>pos_x = 58, pos_y = 45\<rparr>, isTracking := True,
        lastMatchedIdRef := Some 1, fetched := [1]\<rparr>)
     sample_person \<lparr>personId = 1, similarity = 1\<rparr>) \<and>
   lastMatchedIdRef sample_session = None \<and>
   detectedPerson
     (sample_session\<lparr>targetPosRef := \<lparr>pos_x = 58, pos_y = 45\<rparr>, isTracking := True,
        lastMatchedIdRef := Some 1, fetched := [1]\<rparr>) = None \<and>
   recognize_after_await (Inr None)
     (sample_session\<lparr>targetPosRef := \<lparr>pos_x = 58, pos_y = 45\<rparr>, isTracking := True,
        lastMatchedIdRef := Some 1, fetched := [1]\<rparr>)
     sample_person \<lparr>personId = 1, similarity = 1\<rparr> =
     Inr
     (sample_session\<lparr>targetPosRef := \<lparr>pos_x = 58, pos_y = 45\<rparr>, isTracking := True,
        lastMatchedIdRef := Some 1, fetched := [1],
        detectedPerson := Some sample_overlay,
        recognitionStatus :=
          ''Recognized ('' @ showInt (Math_round (1 * 100)) @ ''%)''\<rparr>) \<and>
   session Polling
     (sample_session\<lparr>targetPosRef := \<lparr>pos_x = 58, pos_y = 45\<rparr>, isTracking := True,
        lastMatchedIdRef := Some 1, fetched := [1],
        detectedPerson := Some sample_overlay,
        recognitionStatus :=
          ''Recognized ('' @ showInt (Math_round (1 * 100)) @ ''%)''\<rparr>) \<and>
   lastMatchedIdRef
     (sample_session\<lparr>targetPosRef := \<lparr>pos_x = 58, pos_y = 45\<rparr>, isTracking := True,
        lastMatchedIdRef := Some 1, fetched := [1],
        detectedPerson := Some sample_overlay,
        recognitionStatus :=
          ''Recognized ('' @ showInt (Math_round (1 * 100)) @ ''%)''\<rparr>) = Some 1 \<and>
   detectedPerson
     (sample_session\<lparr>targetPosRef := \<lparr>pos_x = 58, pos_y = 45\<rparr>, isTracking := True,
        lastMatchedIdRef := Some 1, fetched := [1],
        detectedPerson := Some sample_overlay,
        recognitionStatus :=
          ''Recognized ('' @ showInt (Math_round (1 * 100)) @ ''%)''\<rparr>) = Some sample_overlay \<and>
   id_Person sample_overlay = Some 1 \<and>
   findBestMatch [0, 1] (storedDescriptorsRef
     (sample_session\<lparr>targetPosRef := \<lparr>pos_x = 58, pos_y = 45\<rparr>, isTracking := True,
        lastMatchedIdRef := Some 1, fetched := [1],
        detectedPerson := Some sample_overlay,
        recognitionStatus :=
          ''Recognized ('' @ showInt (Math_round (1 * 100)) @ ''%)''\<rparr>)) = Inr None \<and>
   recognize no_conversations
     (sample_session\<lparr>targetPosRef := \<lparr>pos_x = 58, pos_y = 45\<rparr>, isTracking := True,
        lastMatchedIdRef := Some 1, fetched := [1],
        detectedPerson := Some sample_overlay,
        recognitionStatus :=
          ''Recognized ('' @ showInt (Math_round (1 * 100)) @ ''%)''\<rparr>)
     (Some (sample_face [0, 1])) =
     Inr
     (sample_session\<lparr>targetPosRef := \<lparr>pos_x = 58, pos_y = 45\<rparr>, isTracking := True,
        lastMatchedIdRef := None, fetched := [1],
        detectedPerson := None,
        recognitionStatus := ''Unknown face''\<rparr>) \<and>
   lastMatchedIdRef
     (sample_session\<lparr>targetPosRef := \<lparr>pos_x = 58, pos_y = 45\<rparr>, isTracking := True,
        lastMatchedIdRef := None, fetched := [1],
        detectedPerson := None,
        recognitionStatus := ''Unknown face''\<rparr>) = None \<and>
   detectedPerson
     (sample_session\<lparr>targetPosRef := \<lparr>pos_x = 58, pos_y = 45\<rparr>, isTracking := True,
        lastMatchedIdRef := None, fetched := [1],
        detectedPerson := None,
        recognitionStatus := ''Unknown face''\<rparr>) = None"
proof -
  have u: "recognize_until_await sample_session (Some (sample_face [0, 0])) =
     Inr (Awaiting
     (sample_session\<lparr>targetPosRef := \<lparr>pos_x = 58, pos_y = 45\<rparr>, isTracking := True,
        lastMatchedIdRef := Some 1, fetched := [1]\<rparr>)
     sample_person \<lparr>personId = 1, similarity = 1\<rparr>)"
    by (simp add: recognize_until_await_def initializeAR_def startCamera_def
        startFaceRecognition_def initialState_def findBestMatch_def compareFaces_def
        euclideanDistance_def MATCH_THRESHOLD_def
        sample_person_def sample_overlay_def sample_session_def sample_face_def no_conversations_def)
  have a: "recognize_after_await (Inr None)
     (sample_session\<lparr>targetPosRef := \<lparr>pos_x = 58, pos_y = 45\<rparr>, isTracking := True,
        lastMatchedIdRef := Some 1, fetched := [1]\<rparr>)
     sample_person \<lparr>personId = 1, similarity = 1\<rparr> =
     Inr
     (sample_session\<lparr>targetPosRef := \<lparr>pos_x = 58, pos_y = 45\<rparr>, isTracking := True,
        lastMatchedIdRef := Some 1, fetched := [1],
        detectedPerson := Some sample_overlay,
        recognitionStatus :=
          ''Recognized ('' @ showInt (Math_round (1 * 100)) @ ''%)''\<rparr>)"
    by (simp add: recognize_after_await_def sample_person_def sample_overlay_def)
  have i: "session Polling sample_session"
    unfolding sample_session_def by (rule session.init)
  have p: "session Polling
     (sample_session\<lparr>targetPosRef := \<lparr>pos_x = 58, pos_y = 45\<rparr>, isTracking := True,
        lastMatchedIdRef := Some 1, fetched := [1],
        detectedPerson := Some sample_overlay,
        recognitionStatus :=
          ''Recognized ('' @ showInt (Math_round (1 * 100)) @ ''%)''\<rparr>)"
    by (rule session.answered[OF session.await[OF i u] a])
  have c: "recognize no_conversations
     (sample_session\<lparr>targetPosRef := \<lparr>pos_x = 58, pos_y = 45\<rparr>, isTracking := True,
        lastMatchedIdRef := Some 1, fetched := [1],
        detectedPerson := Some sample_overlay,
        recognitionStatus :=
          ''Recognized ('' @ showInt (Math_round (1 * 100)) @ ''%)''\<rparr>)
     (Some (sample_face [0, 1])) =
     Inr
     (sample_session\<lparr>targetPosRef := \<lparr>pos_x = 58, pos_y = 45\<rparr>, isTracking := True,
        lastMatchedIdRef := None, fetched := [1],
        detectedPerson := None,
        recognitionStatus := ''Unknown face''\<rparr>)"
    by (simp add: recognize_def initializeAR_def startCamera_def startFaceRecognition_def initialState_def
        findBestMatch_def compareFaces_def euclideanDistance_def MATCH_THRESHOLD_def
        sample_person_def sample_overlay_def sample_session_def sample_face_def no_conversations_def)
  have g: "lastMatchedIdRef sample_session = None \<and> detectedPerson sample_session = None"
    by (simp add: initializeAR_def startCamera_def startFaceRecognition_def initialState_def
        sample_session_def)
  have l1: "lastMatchedIdRef
     (sample_session\<lparr>targetPosRef := \<lparr>pos_x = 58, pos_y = 45\<rparr>, isTracking := True,
        lastMatchedIdRef := Some 1, fetched := [1],
        detectedPerson := Some sample_overlay,
        recognitionStatus :=
          ''Recognized ('' @ showInt (Math_round (1 * 100)) @ ''%)''\<rparr>) \<noteq> None"
    by simp
  have l2: "lastMatchedIdRef
     (sample_session\<lparr>targetPosRef := \<lparr>pos_x = 58, pos_y = 45\<rparr>, isTracking := True,
        lastMatchedIdRef := None, fetched := [1],
        detectedPerson := None,
        recognitionStatus := ''Unknown face''\<rparr>) = None"
    by simp
  from overlay_matches_identity_between_cycles [where s = sample_session
      and result = "Some (sample_face [0, 0])" and ?s2.0 = "(sample_session\<lparr>targetPosRef := \<lparr>pos_x = 58, pos_y = 45\<rparr>, isTracking := True,
        lastMatchedIdRef := Some 1, fetched := [1]\<rparr>)"
      and matchedPerson = sample_person and m = "\<lparr>personId = 1, similarity = 1\<rparr>"] u
  have k1: "detectedPerson
     (sample_session\<lparr>targetPosRef := \<lparr>pos_x = 58, pos_y = 45\<rparr>, isTracking := True,
        lastMatchedIdRef := Some 1, fetched := [1]\<rparr>) = detectedPerson sample_session"
    by blast
  from overlay_matches_identity_between_cycles [where s = "(sample_session\<lparr>targetPosRef := \<lparr>pos_x = 58, pos_y = 45\<rparr>, isTracking := True,
        lastMatchedIdRef := Some 1, fetched := [1],
        detectedPerson := Some sample_overlay,
        recognitionStatus :=
          ''Recognized ('' @ showInt (Math_round (1 * 100)) @ ''%)''\<rparr>)"] p
  have k2: "\<forall>p. detectedPerson
     (sample_session\<lparr>targetPosRef := \<lparr>pos_x = 58, pos_y = 45\<rparr>, isTracking := True,
        lastMatchedIdRef := Some 1, fetched := [1],
        detectedPerson := Some sample_overlay,
        recognitionStatus :=
          ''Recognized ('' @ showInt (Math_round (1 * 100)) @ ''%)''\<rparr>) = Some p \<longrightarrow> id_Person p = lastMatchedIdRef
     (sample_session\<lparr>targetPosRef := \<lparr>pos_x = 58, pos_y = 45\<rparr>, isTracking := True,
        lastMatchedIdRef := Some 1, fetched := [1],
        detectedPerson := Some sample_overlay,
        recognitionStatus :=
          ''Recognized ('' @ showInt (Math_round (1 * 100)) @ ''%)''\<rparr>)"
    by blast
  from overlay_matches_identity_between_cycles [where s = "(sample_session\<lparr>targetPosRef := \<lparr>pos_x = 58, pos_y = 45\<rparr>, isTracking := True,
        lastMatchedIdRef := Some 1, fetched := [1],
        detectedPerson := Some sample_overlay,
        recognitionStatus :=
          ''Recognized ('' @ showInt (Math_round (1 * 100)) @ ''%)''\<rparr>)"
      and db = no_conversations and result = "Some (sample_face [0, 1])"
      and s' = "(sample_session\<lparr>targetPosRef := \<lparr>pos_x = 58, pos_y = 45\<rparr>, isTracking := True,
        lastMatchedIdRef := None, fetched := [1],
        detectedPerson := None,
        recognitionStatus := ''Unknown face''\<rparr>)"] c l1 l2
  have k3: "detectedPerson
     (sample_session\<lparr>targetPosRef := \<lparr>pos_x = 58, pos_y = 45\<rparr>, isTracking := True,
        lastMatchedIdRef := None, fetched := [1],
        detectedPerson := None,
        recognitionStatus := ''Unknown face''\<rparr>) = None"
    by blast
  from k2 have k4: "id_Person sample_overlay = Some 1" by simp
  have h: "findBestMatch [0, 1] (storedDescriptorsRef
     (sample_session\<lparr>targetPosRef := \<lparr>pos_x = 58, pos_y = 45\<rparr>, isTracking := True,
        lastMatchedIdRef := Some 1, fetched := [1],
        detectedPerson := Some sample_overlay,
        recognitionStatus :=
          ''Recognized ('' @ showInt (Math_round (1 * 100)) @ ''%)''\<rparr>)) = Inr None"
    by (simp add: initializeAR_def startCamera_def startFaceRecognition_def initialState_def
        findBestMatch_def compareFaces_def euclideanDistance_def MATCH_THRESHOLD_def
        sample_session_def sample_person_def)
  show ?thesis using u a p c g k1 k3 k4 h by simp
qed

text \<open>
  At the await of the first matched cycle of the sample session \<open>lastMatchedIdRef\<close> is set
  and no person is displayed: the state is reachable and the two do not agree. A lookup
  that rejects there leaves the state as it is.
\<close>

theorem overlay_missing_while_lookup_pending:
  "recognize_until_await sample_session (Some (sample_face [0, 0])) =
     Inr (Awaiting
     (sample_session\<lparr>targetPosRef := \<lparr>pos_x = 58, pos_y = 45\<rparr>, isTracking := True,
        lastMatchedIdRef := Some 1, fetched := [1]\<rparr>)
     sample_person \<lparr>personId = 1, similarity = 1\<rparr>) \<and>
   reachable
     (sample_session\<lparr>targetPosRef := \<lparr>pos_x = 58, pos_y = 45\<rparr>, isTracking := True,
        lastMatchedIdRef := Some 1, fetched := [1]\<rparr>) \<and>
   lastMatchedIdRef
     (sample_session\<lparr>targetPosRef := \<lparr>pos_x = 58, pos_y = 45\<rparr>, isTracking := True,
        lastMatchedIdRef := Some 1, fetched := [1]\<rparr>) = Some 1 \<and>
   detectedPerson
     (sample_session\<lparr>targetPosRef := \<lparr>pos_x = 58, pos_y = 45\<rparr>, isTracking := True,
        lastMatchedIdRef := Some 1, fetched := [1]\<rparr>) = None \<and>
   recognize_after_await (Inl DatabaseError)
     (sample_session\<lparr>targetPosRef := \<lparr>pos_x = 58, pos_y = 45\<rparr>, isTracking := True,
        lastMatchedIdRef := Some 1, fetched := [1]\<rparr>)
     sample_person \<lparr>personId = 1, similarity = 1\<rparr> =
     Inl (DatabaseError,
     (sample_session\<lparr>targetPosRef := \<lparr>pos_x = 58, pos_y = 45\<rparr>, isTracking := True,
        lastMatchedIdRef := Some 1, fetched := [1]\<rparr>))"
proof -
  have u: "recognize_until_await sample_session (Some (sample_face [0, 0])) =
     Inr (Awaiting
     (sample_session\<lparr>targetPosRef := \<lparr>pos_x = 58, pos_y = 45\<rparr>, isTracking := True,
        lastMatchedIdRef := Some 1, fetched := [1]\<rparr>)
     sample_person \<lparr>personId = 1, similarity = 1\<rparr>)"
    by (simp add: recognize_until_await_def initializeAR_def startCamera_def
        startFaceRecognition_def initialState_def findBestMatch_def compareFaces_def
        euclideanDistance_def MATCH_THRESHOLD_def
        sample_person_def sample_overlay_def sample_session_def sample_face_def no_conversations_def)
  have i: "session Polling sample_session"
    unfolding sample_session_def by (rule session.init)
  have r: "reachable
     (sample_session\<lparr>targetPosRef := \<lparr>pos_x = 58, pos_y = 45\<rparr>, isTracking := True,
        lastMatchedIdRef := Some 1, fetched := [1]\<rparr>)"
    by (rule session_reachable[OF session.await[OF i u]])
  have f: "lastMatchedIdRef
     (sample_session\<lparr>targetPosRef := \<lparr>pos_x = 58, pos_y = 45\<rparr>, isTracking := True,
        lastMatchedIdRef := Some 1, fetched := [1]\<rparr>) = Some 1 \<and>
   detectedPerson
     (sample_session\<lparr>targetPosRef := \<lparr>pos_x = 58, pos_y = 45\<rparr>, isTracking := True,
        lastMatchedIdRef := Some 1, fetched := [1]\<rparr>) = None"
    by (simp add: initializeAR_def startCamera_def startFaceRecognition_def initialState_def
        sample_session_def)
  show ?thesis using u r f by (simp add: recognize_after_await_def)
qed

section \<open>Properties of the overlay animation\<close>

lemma animate_step:
  "targetPosRef (animate s) = targetPosRef s \<and>
   pos_x (smoothPosRef (animate s)) - pos_x (targetPosRef s) =
     0.88 * (pos_x (smoothPosRef s) - pos_x (targetPosRef s)) \<and>
   pos_y (smoothPosRef (animate s)) - pos_y (targetPosRef s) =
     0.88 * (pos_y (smoothPosRef s) - pos_y (targetPosRef s))"
  by (simp add: animate_def Let_def field_simps)

lemma animate_frames:
  "targetPosRef ((animate ^^ n) s) = targetPosRef s \<and>
   pos_x (smoothPosRef ((animate ^^ n) s)) - pos_x (targetPosRef s) =
     0.88 ^ n * (pos_x (smoothPosRef s) - pos_x (targetPosRef s)) \<and>
   pos_y (smoothPosRef ((animate ^^ n) s)) - pos_y (targetPosRef s) =
     0.88 ^ n * (pos_y (smoothPosRef s) - pos_y (targetPosRef s))"
proof (induction n)
  case 0
  show ?case by simp
next
  case (Suc n)
  let ?s = "(animate ^^ n) s"
  from animate_step[of ?s] Suc show ?case by simp
qed

lemma pow_50: "(0.001::real) < 0.88 ^ 50 \<and> (0.88::real) ^ 50 < 0.0017"
  by (simp add: power_divide)

lemma pow_55: "(0.88::real) ^ 55 < 0.001"
  by (simp add: power_divide)

lemma geometric_error_tendsto:
  assumes "\<And>n. f n - t = 0.88 ^ n * (c::real)"
  shows "f \<longlonglongrightarrow> t"
proof -
  have "(\<lambda>n. (0.88::real) ^ n) \<longlonglongrightarrow> 0" by (rule LIMSEQ_realpow_zero) simp_all
  then have "(\<lambda>n. t + 0.88 ^ n * c) \<longlonglongrightarrow> t + 0 * c"
    by (intro tendsto_add tendsto_mult tendsto_const)
  moreover have "f = (\<lambda>n. t + 0.88 ^ n * c)"
  proof
    fix n
    from assms[of n] show "f n = t + 0.88 ^ n * c" by simp
  qed
  ultimately show ?thesis by simp
qed

lemma geometric_error_abs:
  assumes "e = 0.88 ^ n * (c::real)"
  shows "\<bar>e\<bar> = 0.88 ^ n * \<bar>c\<bar>"
  using assms by (simp add: abs_mult)

lemma geometric_error_55:
  assumes "e = 0.88 ^ n * (c::real)" and "55 \<le> n"
  shows "\<bar>e\<bar> \<le> 0.001 * \<bar>c\<bar>"
proof -
  have "(0.88::real) ^ n \<le> 0.88 ^ 55" using assms(2) by (intro power_decreasing) simp_all
  also have "\<dots> \<le> 0.001" using pow_55 by simp
  finally have "0.88 ^ n * \<bar>c\<bar> \<le> 0.001 * \<bar>c\<bar>" by (intro mult_right_mono) simp_all
  then show ?thesis using geometric_error_abs[OF assms(1)] by simp
qed

lemma geometric_error_50:
  assumes "e = 0.88 ^ 50 * (c::real)"
  shows "\<bar>e\<bar> \<le> 0.0017 * \<bar>c\<bar>"
proof -
  have "(0.88::real) ^ 50 \<le> 0.0017" using pow_50 by simp
  then have "0.88 ^ 50 * \<bar>c\<bar> \<le> 0.0017 * \<bar>c\<bar>" by (intro mult_right_mono) simp_all
  then show ?thesis using geometric_error_abs[OF assms] by simp
qed

text \<open>
  Claim C8, as the code has it. With a fixed target, the frames of the animation move the
  smoothed position toward the target on each axis: the distance left after \<open>n\<close> frames is
  \<open>0.88 ^ n\<close> of the initial one, so the position converges to the target. After 50
  frames the distance left is at most 0.17% of the initial one, and from 55 frames on it is
  at most 0.1%. One frame from (75, 30) toward (80, 20) gives (75.6, 28.8).
\<close>

theorem animate_converges:
  "(\<lambda>n. pos_x (smoothPosRef ((animate ^^ n) s))) \<longlonglongrightarrow> pos_x (targetPosRef s) \<and>
   (\<lambda>n. pos_y (smoothPosRef ((animate ^^ n) s))) \<longlonglongrightarrow> pos_y (targetPosRef s) \<and>
   \<bar>pos_x (smoothPosRef ((animate ^^ n) s)) - pos_x (targetPosRef s)\<bar> =
     0.88 ^ n * \<bar>pos_x (smoothPosRef s) - pos_x (targetPosRef s)\<bar> \<and>
   \<bar>pos_y (smoothPosRef ((animate ^^ n) s)) - pos_y (targetPosRef s)\<bar> =
     0.88 ^ n * \<bar>pos_y (smoothPosRef s) - pos_y (targetPosRef s)\<bar> \<and>
   \<bar>pos_x (smoothPosRef ((animate ^^ 50) s)) - pos_x (targetPosRef s)\<bar> \<le>
     0.0017 * \<bar>pos_x (smoothPosRef s) - pos_x (targetPosRef s)\<bar> \<and>
   \<bar>pos_y (smoothPosRef ((animate ^^ 50) s)) - pos_y (targetPosRef s)\<bar> \<le>
     0.0017 * \<bar>pos_y (smoothPosRef s) - pos_y (targetPosRef s)\<bar> \<and>
   (55 \<le> n \<longrightarrow>
      \<bar>pos_x (smoothPosRef ((animate ^^ n) s)) - pos_x (targetPosRef s)\<bar> \<le>
        0.001 * \<bar>pos_x (smoothPosRef s) - pos_x (targetPosRef s)\<bar> \<and>
      \<bar>pos_y (smoothPosRef ((animate ^^ n) s)) - pos_y (targetPosRef s)\<bar> \<le>
        0.001 * \<bar>pos_y (smoothPosRef s) - pos_y (targetPosRef s)\<bar>) \<and>
   smoothPosRef (animate (s\<lparr>targetPosRef := \<lparr>pos_x = 80, pos_y = 20\<rparr>,
                            smoothPosRef := \<lparr>pos_x = 75, pos_y = 30\<rparr>\<rparr>)) =
     \<lparr>pos_x = 75.6, pos_y = 28.8\<rparr>"
proof -
  have x: "pos_x (smoothPosRef ((animate ^^ k) s)) - pos_x (targetPosRef s) =
      0.88 ^ k * (pos_x (smoothPosRef s) - pos_x (targetPosRef s))" for k
    using animate_frames[of k s] by simp
  have y: "pos_y (smoothPosRef ((animate ^^ k) s)) - pos_y (targetPosRef s) =
      0.88 ^ k * (pos_y (smoothPosRef s) - pos_y (targetPosRef s))" for k
    using animate_frames[of k s] by simp
  have "(\<lambda>n. pos_x (smoothPosRef ((animate ^^ n) s))) \<longlonglongrightarrow> pos_x (targetPosRef s)"
    by (rule geometric_error_tendsto[OF x])
  moreover have "(\<lambda>n. pos_y (smoothPosRef ((animate ^^ n) s))) \<longlonglongrightarrow> pos_y (targetPosRef s)"
    by (rule geometric_error_tendsto[OF y])
  moreover note geometric_error_abs[OF x[of n]] geometric_error_abs[OF y[of n]]
    geometric_error_50[OF x[of 50]] geometric_error_50[OF y[of 50]]
  moreover have "55 \<le> n \<longrightarrow>
      \<bar>pos_x (smoothPosRef ((animate ^^ n) s)) - pos_x (targetPosRef s)\<bar> \<le>
        0.001 * \<bar>pos_x (smoothPosRef s) - pos_x (targetPosRef s)\<bar> \<and>
      \<bar>pos_y (smoothPosRef ((animate ^^ n) s)) - pos_y (targetPosRef s)\<bar> \<le>
        0.001 * \<bar>pos_y (smoothPosRef s) - pos_y (targetPosRef s)\<bar>"
    using geometric_error_55[OF x[of n]] geometric_error_55[OF y[of n]] by blast
  moreover have "smoothPosRef (animate (s\<lparr>targetPosRef := \<lparr>pos_x = 80, pos_y = 20\<rparr>,
                            smoothPosRef := \<lparr>pos_x = 75, pos_y = 30\<rparr>\<rparr>)) =
     \<lparr>pos_x = 75.6, pos_y = 28.8\<rparr>"
    by (simp add: animate_def Let_def)
  ultimately show ?thesis by blast
qed

theorem animate_converges_witness:
  "(55::nat) \<le> 60 \<and>
   \<bar>pos_x (smoothPosRef ((animate ^^ 60) (initialState\<lparr>targetPosRef := \<lparr>pos_x = 80, pos_y = 20\<rparr>\<rparr>)))
      - 80\<bar> \<le> 0.001 * \<bar>75 - 80\<bar> \<and>
   \<bar>pos_y (smoothPosRef ((animate ^^ 60) (initialState\<lparr>targetPosRef := \<lparr>pos_x = 80, pos_y = 20\<rparr>\<rparr>)))
      - 20\<bar> \<le> 0.001 * \<bar>30 - 20\<bar> \<and>
   smoothPosRef (animate (initialState\<lparr>targetPosRef := \<lparr>pos_x = 80, pos_y = 20\<rparr>\<rparr>)) =
     \<lparr>pos_x = 75.6, pos_y = 28.8\<rparr>"
proof -
  have "smoothPosRef (animate (initialState\<lparr>targetPosRef := \<lparr>pos_x = 80, pos_y = 20\<rparr>\<rparr>)) =
     \<lparr>pos_x = 75.6, pos_y = 28.8\<rparr>"
    by (simp add: animate_def Let_def initialState_def)
  with animate_converges [of "initialState\<lparr>targetPosRef := \<lparr>pos_x = 80, pos_y = 20\<rparr>\<rparr>" 60]
  show ?thesis by (simp add: initialState_def)
qed

text \<open>
  After 50 frames the distance left is not below 0.1% of the initial one: from (75, 30)
  toward (80, 20), more than 0.1% of the horizontal offset of 5 is left.
\<close>

theorem animate_50_frames_above_tenth_percent:
  "0.001 * \<bar>75 - 80\<bar> <
   \<bar>pos_x (smoothPosRef ((animate ^^ 50) (initialState\<lparr>targetPosRef := \<lparr>pos_x = 80, pos_y = 20\<rparr>\<rparr>)))
      - 80\<bar>"
proof -
  have "\<bar>pos_x (smoothPosRef ((animate ^^ 50) (initialState\<lparr>targetPosRef := \<lparr>pos_x = 80, pos_y = 20\<rparr>\<rparr>)))
      - 80\<bar> = 0.88 ^ 50 * \<bar>75 - 80\<bar>"
    using animate_frames[of 50 "initialState\<lparr>targetPosRef := \<lparr>pos_x = 80, pos_y = 20\<rparr>\<rparr>"]
    by (simp add: initialState_def abs_mult del: power_numeral)
  also have "\<dots> > 0.001 * \<bar>75 - (80::real)\<bar>" using pow_50 by simp
  finally show ?thesis by simp
qed

section \<open>Properties of the summarizer\<close>

lemma summarizeConversation_try_fallback:
  assumes "fetch k rawText = Inr response"
    and "status response = 429 \<or> \<not> ok response \<or> (\<exists>e. json response = Inl e) \<or>
         (\<exists>data. json response = Inr data \<and>
            ((\<exists>e. extractSummary data = Inl e) \<or>
             (\<exists>v. extractSummary data = Inr v \<and> \<not> truthy v)))"
  shows "(\<exists>e. summarizeConversation_try fetch k rawText = Inl e) \<or>
         summarizeConversation_try fetch k rawText = Inr (createFallbackSummary rawText)"
  using assms by (auto simp: summarizeConversation_try_def)

lemma summarizeConversation_total:
  "\<exists>summ. summarizeConversation key fetch rawText = Inr summ"
  by (auto simp: summarizeConversation_def split: option.splits sum.splits)

lemma summarizeConversation_caught:
  assumes "k \<noteq> []"
    and "(\<exists>e. summarizeConversation_try fetch k rawText = Inl e) \<or>
         summarizeConversation_try fetch k rawText = Inr (createFallbackSummary rawText)"
  shows "summarizeConversation (Some k) fetch rawText = Inr (createFallbackSummary rawText)"
  using assms by (auto simp: summarizeConversation_def)

text \<open>
  Claim C9. \<open>summarizeConversation\<close> always returns a string and never throws. Without an
  API key, on a network error, on status 429, on any response that is not OK, when the
  body cannot be read as JSON, and when no summary can be taken out of it (reading it
  throws, or what is found is empty or missing), the string returned is the local fallback
  \<open>createFallbackSummary\<close> of the input text.
\<close>

theorem summarizeConversation_never_raises:
  "(\<exists>summ. summarizeConversation key fetch rawText = Inr summ) \<and>
   (key = None \<or> key = Some [] \<longrightarrow>
      summarizeConversation key fetch rawText = Inr (createFallbackSummary rawText)) \<and>
   (key = Some k \<and> k \<noteq> [] \<and> fetch k rawText = Inl e \<longrightarrow>
      summarizeConversation key fetch rawText = Inr (createFallbackSummary rawText)) \<and>
   (key = Some k \<and> k \<noteq> [] \<and> fetch k rawText = Inr response \<and>
    (status response = 429 \<or> \<not> ok response \<or> (\<exists>e. json response = Inl e) \<or>
     (\<exists>data. json response = Inr data \<and>
        ((\<exists>e. extractSummary data = Inl e) \<or>
         (\<exists>v. extractSummary data = Inr v \<and> \<not> truthy v)))) \<longrightarrow>
      summarizeConversation key fetch rawText = Inr (createFallbackSummary rawText))"
proof (intro conjI impI)
  show "\<exists>summ. summarizeConversation key fetch rawText = Inr summ"
    by (rule summarizeConversation_total)
next
  assume "key = None \<or> key = Some []"
  then show "summarizeConversation key fetch rawText = Inr (createFallbackSummary rawText)"
    by (auto simp: summarizeConversation_def)
next
  assume "key = Some k \<and> k \<noteq> [] \<and> fetch k rawText = Inl e"
  then show "summarizeConversation key fetch rawText = Inr (createFallbackSummary rawText)"
    by (simp add: summarizeConversation_def summarizeConversation_try_def)
next
  assume a: "key = Some k \<and> k \<noteq> [] \<and> fetch k rawText = Inr response \<and>
    (status response = 429 \<or> \<not> ok response \<or> (\<exists>e. json response = Inl e) \<or>
     (\<exists>data. json response = Inr data \<and>
        ((\<exists>e. extractSummary data = Inl e) \<or>
         (\<exists>v. extractSummary data = Inr v \<and> \<not> truthy v))))"
  then have "(\<exists>e. summarizeConversation_try fetch k rawText = Inl e) \<or>
         summarizeConversation_try fetch k rawText = Inr (createFallbackSummary rawText)"
    by (intro summarizeConversation_try_fallback[of fetch k rawText response]) blast+
  with a show "summarizeConversation key fetch rawText = Inr (createFallbackSummary rawText)"
    using summarizeConversation_caught[of k fetch rawText] by blast
qed

theorem summarizeConversation_never_raises_witness:
  "summarizeConversation None (\<lambda>k t. Inl NetworkError) ''my birthday party'' = Inr ''Talked about birthday'' \<and>
   summarizeConversation (Some ''key'') (\<lambda>k t. Inl NetworkError) ''my birthday party'' =
     Inr ''Talked about birthday'' \<and>
   summarizeConversation (Some ''key'')
     (\<lambda>k t. Inr \<lparr>status = 429, ok = False, json = Inl SyntaxError\<rparr>) ''my birthday party'' =
     Inr ''Talked about birthday'' \<and>
   summarizeConversation (Some ''key'')
     (\<lambda>k t. Inr \<lparr>status = 500, ok = False, json = Inl SyntaxError\<rparr>) ''my birthday party'' =
     Inr ''Talked about birthday'' \<and>
   summarizeConversation (Some ''key'')
     (\<lambda>k t. Inr \<lparr>status = 200, ok = True, json = Inl SyntaxError\<rparr>) ''my birthday party'' =
     Inr ''Talked about birthday'' \<and>
   extractSummary (JObj []) = Inr JUndefined \<and>
   summarizeConversation (Some ''key'')
     (\<lambda>k t. Inr \<lparr>status = 200, ok = True, json = Inr (JObj [])\<rparr>) ''my birthday party'' =
     Inr ''Talked about birthday'' \<and>
   extractSummary (JObj [(''candidates'', JArr [JObj [(''text'', JNum 3)]])]) = Inl TypeError \<and>
   summarizeConversation (Some ''key'')
     (\<lambda>k t. Inr \<lparr>status = 200, ok = True,
                   json = Inr (JObj [(''candidates'', JArr [JObj [(''text'', JNum 3)]])])\<rparr>) ''my birthday party'' =
     Inr ''Talked about birthday''"
proof -
  have f: "createFallbackSummary ''my birthday party'' = ''Talked about birthday''"
    by code_simp
  have x1: "extractSummary (JObj []) = Inr JUndefined"
    by code_simp
  have x2: "extractSummary (JObj [(''candidates'', JArr [JObj [(''text'', JNum 3)]])]) =
      Inl TypeError"
    by code_simp
  note n = summarizeConversation_never_raises [where rawText = "''my birthday party''" and k = "''key''"]
  from n [where key = None and fetch = "\<lambda>k t. Inl NetworkError"]
    n [where key = "Some ''key''" and fetch = "\<lambda>k t. Inl NetworkError" and e = NetworkError]
    n [where key = "Some ''key''"
        and fetch = "\<lambda>k t. Inr \<lparr>status = 429, ok = False, json = Inl SyntaxError\<rparr>"
        and response = "\<lparr>status = 429, ok = False, json = Inl SyntaxError\<rparr>"]
    n [where key = "Some ''key''"
        and fetch = "\<lambda>k t. Inr \<lparr>status = 500, ok = False, json = Inl SyntaxError\<rparr>"
        and response = "\<lparr>status = 500, ok = False, json = Inl SyntaxError\<rparr>"]
    n [where key = "Some ''key''"
        and fetch = "\<lambda>k t. Inr \<lparr>status = 200, ok = True, json = Inl SyntaxError\<rparr>"
        and response = "\<lparr>status = 200, ok = True, json = Inl SyntaxError\<rparr>"]
    n [where key = "Some ''key''"
        and fetch = "\<lambda>k t. Inr \<lparr>status = 200, ok = True, json = Inr (JObj [])\<rparr>"
        and response = "\<lparr>status = 200, ok = True, json = Inr (JObj [])\<rparr>"]
    n [where key = "Some ''key''"
        and fetch = "\<lambda>k t. Inr \<lparr>status = 200, ok = True,
                   json = Inr (JObj [(''candidates'', JArr [JObj [(''text'', JNum 3)]])])\<rparr>"
        and response = "\<lparr>status = 200, ok = True,
                   json = Inr (JObj [(''candidates'', JArr [JObj [(''text'', JNum 3)]])])\<rparr>"]
  show ?thesis by (simp add: f x1 x2)
qed

end
